theory Spec2Isabelle
  imports Complex_Main "HOL-Library.Word" "HOL-Library.Log_Nat"
begin

section \<open>The machine model\<close>

text \<open>
  The embedding follows \<^verbatim>\<open>examples/pubsub_realtime/pubsub_TSN_publisher.c\<close> as it is
  compiled with both \<^verbatim>\<open>PUBLISHER\<close> and \<^verbatim>\<open>SUBSCRIBER\<close> defined, for Linux on a 64-bit
  target: \<^verbatim>\<open>time_t\<close>, \<^verbatim>\<open>__syscall_slong_t\<close>, \<^verbatim>\<open>size_t\<close> and \<^verbatim>\<open>UA_UInt64\<close> have
  64 bits, \<^verbatim>\<open>int\<close> and \<^verbatim>\<open>UA_Int32\<close> have 32. Machine integers are words: \<open>+\<close>, \<open>-\<close>
  and \<open>*\<close> wrap around, \<open>sint\<close> reads a word as a signed value, \<open>unat\<close> as an
  unsigned one.
\<close>

subsection \<open>struct timespec\<close>

record timespec =
  tv_sec :: "64 word"
  tv_nsec :: "64 word"

text \<open>
  The macros are textual: \<^verbatim>\<open>SECONDS\<close> is \<^verbatim>\<open>1000 * 1000 * 1000\<close> and
  \<^verbatim>\<open>MILLI_SECONDS\<close> is \<^verbatim>\<open>1000 * 1000\<close>, without parentheses. In the integer
  expressions below the product is the same number either way.
\<close>

definition SECONDS :: "64 word" where
  "SECONDS = 1000 * 1000 * 1000"

definition SECONDS_INCREMENT :: "64 word" where
  "SECONDS_INCREMENT = 1"

definition SECONDS_SLEEP :: "64 word" where
  "SECONDS_SLEEP = 5"

subsection \<open>Normalising the nanosecond field\<close>

text \<open>
  \<^verbatim>\<open>nanoSecondFieldConversion\<close>: the loop
  \<^verbatim>\<open>while (tv_nsec > (SECONDS - 1)) { tv_sec += SECONDS_INCREMENT; tv_nsec -= SECONDS; }\<close>
  with a signed comparison. Every round lowers a nanosecond field that is at least
  \<open>10\<^sup>9\<close> by \<open>10\<^sup>9\<close>, so the subtraction never wraps and the loop ends.
\<close>

function nanoSecondFieldConversion :: "timespec \<Rightarrow> timespec" where
  "nanoSecondFieldConversion timeSpecValue =
     (if SECONDS - 1 <s tv_nsec timeSpecValue
      then nanoSecondFieldConversion
             (timeSpecValue\<lparr>tv_sec := tv_sec timeSpecValue + SECONDS_INCREMENT,
                            tv_nsec := tv_nsec timeSpecValue - SECONDS\<rparr>)
      else timeSpecValue)"
  by pat_completeness auto
termination
proof (relation "measure (\<lambda>t. nat (sint (tv_nsec t)))")
  show "wf (measure (\<lambda>t. nat (sint (tv_nsec t))))" by simp
next
  fix t :: timespec
  assume a: "SECONDS - 1 <s tv_nsec t"
  have "sint (SECONDS - 1 :: 64 word) = 999999999" by (simp add: SECONDS_def)
  with a have ge: "999999999 < sint (tv_nsec t)" by (simp add: word_sless_alt)
  have lt: "sint (tv_nsec t) < 2 ^ 63" using sint_lt [of "tv_nsec t"] by simp
  have ss: "sint (SECONDS :: 64 word) = 1000000000" by (simp add: SECONDS_def)
  have "sint (tv_nsec t - SECONDS) = signed_take_bit 63 (sint (tv_nsec t) - 1000000000)"
    by (simp add: sint_word_ariths ss)
  also have "\<dots> = sint (tv_nsec t) - 1000000000"
    using ge lt by (intro signed_take_bit_int_eq_self) auto
  finally have "sint (tv_nsec t - SECONDS) = sint (tv_nsec t) - 1000000000" .
  with ge show
    "(t\<lparr>tv_sec := tv_sec t + SECONDS_INCREMENT, tv_nsec := tv_nsec t - SECONDS\<rparr>, t)
       \<in> measure (\<lambda>t. nat (sint (tv_nsec t)))"
    by simp
qed

declare nanoSecondFieldConversion.simps [simp del]

subsection \<open>Double precision arithmetic\<close>

text \<open>
  A finite \<^verbatim>\<open>UA_Double\<close> is modelled by the rational number it denotes. Every
  operation computes the exact result and rounds it to the nearest number with a
  53-bit significand, ties to the even significand (IEEE 754 binary64, evaluated in
  double precision without contraction). The exponent is not bounded: the model
  covers the computations whose results neither overflow nor become subnormal, and
  it has no infinities and no NaN.

  For a positive \<open>x = p / q\<close> the number \<open>k = bitlen p - bitlen q\<close> satisfies
  \<open>2\<^sup>k\<^sup>-\<^sup>1 < x < 2\<^sup>k\<^sup>+\<^sup>1\<close>, so one comparison finds the binary exponent of \<open>x\<close>.
\<close>

type_synonym double = rat

definition round_double :: "rat \<Rightarrow> double" where
  "round_double x =
     (if x = 0 then 0
      else (case quotient_of \<bar>x\<bar> of (p, q) \<Rightarrow>
        let k = bitlen p - bitlen q;
            e = (if 2 powi k \<le> \<bar>x\<bar> then k else k - 1) - 52;
            y = \<bar>x\<bar> / (2 powi e);
            n = \<lfloor>y\<rfloor>;
            r = y - of_int n;
            m = (if r < 1 / 2 then n
                 else if 1 / 2 < r then n + 1
                 else if even n then n else n + 1)
        in sgn x * of_int m * (2 powi e)))"

definition dmul :: "double \<Rightarrow> double \<Rightarrow> double" where
  "dmul x y = round_double (x * y)"

definition dsub :: "double \<Rightarrow> double \<Rightarrow> double" where
  "dsub x y = round_double (x - y)"

text \<open>
  A cast from \<^verbatim>\<open>double\<close> to an integer type drops the fraction. Its behaviour is
  undefined in C when the truncated value is not a value of the target type: the
  model returns \<open>None\<close> there.
\<close>

definition trunc_toward_zero :: "rat \<Rightarrow> int" where
  "trunc_toward_zero x = (if 0 \<le> x then \<lfloor>x\<rfloor> else \<lceil>x\<rceil>)"

definition double_to_int64 :: "double \<Rightarrow> 64 word option" where
  "double_to_int64 x =
     (let k = trunc_toward_zero x
      in if - (2 ^ 63) \<le> k \<and> k < 2 ^ 63 then Some (word_of_int k) else None)"

definition double_to_uint64 :: "double \<Rightarrow> 64 word option" where
  "double_to_uint64 x =
     (let k = trunc_toward_zero x
      in if 0 \<le> k \<and> k < 2 ^ 64 then Some (word_of_int k) else None)"

text \<open>
  \<^verbatim>\<open>x * MILLI_SECONDS\<close> with a double \<open>x\<close> expands to \<^verbatim>\<open>x * 1000 * 1000\<close>: two
  multiplications, each rounded.
\<close>

definition times_MILLI_SECONDS :: "double \<Rightarrow> double" where
  "times_MILLI_SECONDS x = dmul (dmul x 1000) 1000"

text \<open>
  The wake-up fractions are file-scope variables that are initialised with the
  literals \<^verbatim>\<open>0.6\<close>, \<^verbatim>\<open>0\<close> and \<^verbatim>\<open>0.3\<close> and never assigned.
\<close>

definition pubWakeupPercentage :: double where
  "pubWakeupPercentage = round_double (6 / 10)"

definition subWakeupPercentage :: double where
  "subWakeupPercentage = 0"

definition userAppWakeupPercentage :: double where
  "userAppWakeupPercentage = round_double (3 / 10)"

section \<open>The publisher thread\<close>

text \<open>
  \<^verbatim>\<open>publisherETF\<close>. The thread reads its interval from the thread argument, the
  clock (\<open>now\<close> is what \<^verbatim>\<open>clock_gettime\<close> returns) and the cycle time, and then
  loops while \<^verbatim>\<open>running\<close> is set. The flag is written by other threads and by the
  signal handler: \<open>polls\<close> lists the values the loop test reads, one per test. Every
  round of the loop contributes the deadline it slept until and the transmission
  time it computed before calling the publish callback.
\<close>

definition publisherETF_interval_ns :: "double \<Rightarrow> 64 word option" where
  "publisherETF_interval_ns interval_ms = double_to_uint64 (times_MILLI_SECONDS interval_ms)"

definition publisherETF_init :: "double \<Rightarrow> timespec \<Rightarrow> timespec option" where
  "publisherETF_init cycleTimeInMsec now =
     (case double_to_int64 (dmul (times_MILLI_SECONDS cycleTimeInMsec) pubWakeupPercentage) of
        None \<Rightarrow> None
      | Some nsec \<Rightarrow>
          Some (nanoSecondFieldConversion
                  (now\<lparr>tv_sec := tv_sec now + SECONDS_SLEEP, tv_nsec := nsec\<rparr>)))"

definition roundOffCycleTime :: "double \<Rightarrow> 64 word option" where
  "roundOffCycleTime cycleTimeInMsec =
     double_to_uint64
       (dsub (times_MILLI_SECONDS cycleTimeInMsec)
             (dmul (times_MILLI_SECONDS cycleTimeInMsec) pubWakeupPercentage))"

text \<open>
  \<^verbatim>\<open>(UA_UInt64)tv_sec * SECONDS + (UA_UInt64)tv_nsec\<close>: a deadline in nanoseconds, in
  unsigned 64-bit arithmetic.
\<close>

definition timespec_ns :: "timespec \<Rightarrow> 64 word" where
  "timespec_ns t = tv_sec t * 1000 * 1000 * 1000 + tv_nsec t"

text \<open>
  The transmission time. \<^verbatim>\<open>qbvOffset * 1000\<close> is a product of 32-bit integers,
  converted to \<^verbatim>\<open>UA_UInt64\<close> with its sign.
\<close>

definition transmission_time_of :: "timespec \<Rightarrow> 64 word \<Rightarrow> 32 word \<Rightarrow> 64 word" where
  "transmission_time_of nextnanosleeptime roundOff qbvOffset =
     timespec_ns nextnanosleeptime + roundOff + scast (qbvOffset * 1000)"

fun publisherETF_loop ::
  "bool list \<Rightarrow> 64 word \<Rightarrow> 64 word \<Rightarrow> 32 word \<Rightarrow> timespec \<Rightarrow> (timespec \<times> 64 word) list" where
  "publisherETF_loop [] interval_ns roundOff qbvOffset nextnanosleeptime = []"
| "publisherETF_loop (flag # polls) interval_ns roundOff qbvOffset nextnanosleeptime =
     (if flag
      then (nextnanosleeptime, transmission_time_of nextnanosleeptime roundOff qbvOffset) #
           publisherETF_loop polls interval_ns roundOff qbvOffset
             (nanoSecondFieldConversion
                (nextnanosleeptime\<lparr>tv_nsec := tv_nsec nextnanosleeptime + interval_ns\<rparr>))
      else [])"

definition publisherETF ::
  "double \<Rightarrow> double \<Rightarrow> 32 word \<Rightarrow> timespec \<Rightarrow> bool list \<Rightarrow> (timespec \<times> 64 word) list option" where
  "publisherETF cycleTimeInMsec interval_ms qbvOffset now polls =
     (case publisherETF_interval_ns interval_ms of
        None \<Rightarrow> None
      | Some interval_ns \<Rightarrow>
          (case publisherETF_init cycleTimeInMsec now of
             None \<Rightarrow> None
           | Some nextnanosleeptime \<Rightarrow>
               (case roundOffCycleTime cycleTimeInMsec of
                  None \<Rightarrow> None
                | Some roundOff \<Rightarrow>
                    Some (publisherETF_loop polls interval_ns roundOff qbvOffset
                            nextnanosleeptime))))"

section \<open>The subscriber thread\<close>

text \<open>
  \<^verbatim>\<open>subscriber\<close>. Its first nanosecond field is \<^verbatim>\<open>(__syscall_slong_t)subWakeupPercentage\<close>,
  with no cycle time in it. Every round of the loop contributes the deadline it
  slept until before calling the subscribe callback.
\<close>

definition subscriber_init :: "timespec \<Rightarrow> timespec option" where
  "subscriber_init now =
     (case double_to_int64 subWakeupPercentage of
        None \<Rightarrow> None
      | Some nsec \<Rightarrow>
          Some (nanoSecondFieldConversion
                  (now\<lparr>tv_sec := tv_sec now + SECONDS_SLEEP, tv_nsec := nsec\<rparr>)))"

fun subscriber_loop :: "bool list \<Rightarrow> 64 word \<Rightarrow> timespec \<Rightarrow> timespec list" where
  "subscriber_loop [] subInterval_ns nextnanosleeptimeSub = []"
| "subscriber_loop (flag # polls) subInterval_ns nextnanosleeptimeSub =
     (if flag
      then nextnanosleeptimeSub #
           subscriber_loop polls subInterval_ns
             (nanoSecondFieldConversion
                (nextnanosleeptimeSub\<lparr>tv_nsec := tv_nsec nextnanosleeptimeSub + subInterval_ns\<rparr>))
      else [])"

definition subscriber :: "double \<Rightarrow> timespec \<Rightarrow> bool list \<Rightarrow> timespec list option" where
  "subscriber interval_ms now polls =
     (case double_to_uint64 (times_MILLI_SECONDS interval_ms) of
        None \<Rightarrow> None
      | Some subInterval_ns \<Rightarrow>
          (case subscriber_init now of
             None \<Rightarrow> None
           | Some nextnanosleeptimeSub \<Rightarrow>
               Some (subscriber_loop polls subInterval_ns nextnanosleeptimeSub)))"

section \<open>Measurement records and the user application thread\<close>

definition MAX_MEASUREMENTS :: nat where
  "MAX_MEASUREMENTS = 10000000"

definition REPEATED_NODECOUNTS :: nat where
  "REPEATED_NODECOUNTS = 2"

text \<open>
  The globals the user application thread works on. \<^verbatim>\<open>pubCounterData\<close> and the
  entries of \<^verbatim>\<open>repeatedCounterData\<close> point to cells of their own, each allocated
  by \<^verbatim>\<open>UA_UInt64_new\<close>, so the state holds the cells: \<^verbatim>\<open>REPEATED_NODECOUNTS\<close> of
  them for the repeated counters. The measurement arrays have \<^verbatim>\<open>MAX_MEASUREMENTS\<close>
  elements. The two counts have type \<^verbatim>\<open>size_t\<close>; they only grow by one, below
  \<^verbatim>\<open>MAX_MEASUREMENTS\<close>, and so never wrap.
\<close>

record app_state =
  running :: bool
  pubCounterData :: "64 word"
  repeatedCounterData :: "64 word list"
  publishCounterValue :: "64 word list"
  publishTimestamp :: "timespec list"
  measurementsPublisher :: nat
  subscribeCounterValue :: "64 word list"
  subscribeTimestamp :: "timespec list"
  measurementsSubscriber :: nat
  dataModificationTime :: timespec
  dataReceiveTime :: timespec

definition updateMeasurementsPublisher :: "timespec \<Rightarrow> 64 word \<Rightarrow> app_state \<Rightarrow> app_state" where
  "updateMeasurementsPublisher start_time counterValue s =
     (if measurementsPublisher s \<ge> MAX_MEASUREMENTS
      then s\<lparr>running := False\<rparr>
      else s\<lparr>publishTimestamp := (publishTimestamp s)[measurementsPublisher s := start_time],
             publishCounterValue := (publishCounterValue s)[measurementsPublisher s := counterValue],
             measurementsPublisher := measurementsPublisher s + 1\<rparr>)"

definition updateMeasurementsSubscriber :: "timespec \<Rightarrow> 64 word \<Rightarrow> app_state \<Rightarrow> app_state" where
  "updateMeasurementsSubscriber receive_time counterValue s =
     (if measurementsSubscriber s \<ge> MAX_MEASUREMENTS
      then s\<lparr>running := False\<rparr>
      else s\<lparr>subscribeTimestamp := (subscribeTimestamp s)[measurementsSubscriber s := receive_time],
             subscribeCounterValue := (subscribeCounterValue s)[measurementsSubscriber s := counterValue],
             measurementsSubscriber := measurementsSubscriber s + 1\<rparr>)"

text \<open>
  What one round of the user application loop reads from outside: the two clock
  readings and the value of \<^verbatim>\<open>*subCounterData\<close>, a cell that the subscriber side
  writes.
\<close>

record iteration_env =
  clock_modification :: timespec
  clock_receive :: timespec
  subCounterData :: "64 word"

text \<open>The two \<^verbatim>\<open>for\<close> loops over \<^verbatim>\<open>iterator < REPEATED_NODECOUNTS\<close>.\<close>

definition set_repeatedCounterData :: "64 word \<Rightarrow> 64 word list \<Rightarrow> 64 word list" where
  "set_repeatedCounterData repeatedCounterValue cells =
     foldl (\<lambda>cs iterator. cs[iterator := repeatedCounterValue]) cells [0..<REPEATED_NODECOUNTS]"

definition increment_repeatedCounterData :: "64 word list \<Rightarrow> 64 word list" where
  "increment_repeatedCounterData cells =
     foldl (\<lambda>cs iterator. cs[iterator := cs ! iterator + 1]) cells [0..<REPEATED_NODECOUNTS]"

definition userApplicationPubSub_init_time :: "double \<Rightarrow> timespec \<Rightarrow> timespec option" where
  "userApplicationPubSub_init_time cycleTimeInMsec now =
     (case double_to_int64 (dmul (times_MILLI_SECONDS cycleTimeInMsec) userAppWakeupPercentage) of
        None \<Rightarrow> None
      | Some nsec \<Rightarrow>
          Some (nanoSecondFieldConversion
                  (now\<lparr>tv_sec := tv_sec now + SECONDS_SLEEP, tv_nsec := nsec\<rparr>)))"

definition userApplicationPubSub_reset :: "app_state \<Rightarrow> app_state" where
  "userApplicationPubSub_reset s =
     s\<lparr>pubCounterData := 0,
       repeatedCounterData := set_repeatedCounterData 10 (repeatedCounterData s)\<rparr>"

text \<open>
  The body of the loop, on the deadline and the globals. \<open>period_ns\<close> is the value of
  \<^verbatim>\<open>(__syscall_slong_t)(cycleTimeInMsec * MILLI_SECONDS)\<close>, which every round computes
  anew from a cycle time that no longer changes. The loop runs while \<^verbatim>\<open>running\<close> is
  set and has one input for every round; the inputs end where the flag is cleared
  from outside.
\<close>

definition userApplicationPubSub_body ::
  "bool \<Rightarrow> 64 word \<Rightarrow> timespec \<times> app_state \<Rightarrow> iteration_env \<Rightarrow> timespec \<times> app_state" where
  "userApplicationPubSub_body enableCsvLog period_ns st env =
     (let nextnanosleeptime = fst st;
          s1 = (snd st)\<lparr>pubCounterData := pubCounterData (snd st) + 1\<rparr>;
          s2 = s1\<lparr>repeatedCounterData := increment_repeatedCounterData (repeatedCounterData s1)\<rparr>;
          s3 = s2\<lparr>dataModificationTime := clock_modification env\<rparr>;
          s4 = s3\<lparr>dataReceiveTime := clock_receive env\<rparr>;
          s5 = (if enableCsvLog
                then (let s' = updateMeasurementsPublisher (dataModificationTime s4)
                                 (pubCounterData s4) s4
                      in if 0 < subCounterData env
                         then updateMeasurementsSubscriber (dataReceiveTime s')
                                (subCounterData env) s'
                         else s')
                else s4)
      in (nanoSecondFieldConversion
            (nextnanosleeptime\<lparr>tv_nsec := tv_nsec nextnanosleeptime + period_ns\<rparr>), s5))"

fun userApplicationPubSub_loop ::
  "bool \<Rightarrow> 64 word \<Rightarrow> iteration_env list \<Rightarrow> timespec \<times> app_state \<Rightarrow> timespec \<times> app_state" where
  "userApplicationPubSub_loop enableCsvLog period_ns [] st = st"
| "userApplicationPubSub_loop enableCsvLog period_ns (env # envs) st =
     (if running (snd st)
      then userApplicationPubSub_loop enableCsvLog period_ns envs
             (userApplicationPubSub_body enableCsvLog period_ns st env)
      else st)"

definition userApplicationPubSub ::
  "bool \<Rightarrow> double \<Rightarrow> timespec \<Rightarrow> iteration_env list \<Rightarrow> app_state \<Rightarrow>
     (timespec \<times> app_state) option" where
  "userApplicationPubSub enableCsvLog cycleTimeInMsec now envs s =
     (case userApplicationPubSub_init_time cycleTimeInMsec now of
        None \<Rightarrow> None
      | Some nextnanosleeptime \<Rightarrow>
          (case double_to_int64 (times_MILLI_SECONDS cycleTimeInMsec) of
             None \<Rightarrow> None
           | Some period_ns \<Rightarrow>
               Some (userApplicationPubSub_loop enableCsvLog period_ns envs
                       (nextnanosleeptime, userApplicationPubSub_reset s))))"

text \<open>The globals when the threads start: zero-initialised arrays and counts.\<close>

definition zero_timespec :: timespec where
  "zero_timespec = \<lparr>tv_sec = 0, tv_nsec = 0\<rparr>"

definition initial_state :: app_state where
  "initial_state =
     \<lparr>running = True, pubCounterData = 0,
      repeatedCounterData = replicate REPEATED_NODECOUNTS 0,
      publishCounterValue = replicate MAX_MEASUREMENTS 0,
      publishTimestamp = replicate MAX_MEASUREMENTS zero_timespec,
      measurementsPublisher = 0,
      subscribeCounterValue = replicate MAX_MEASUREMENTS 0,
      subscribeTimestamp = replicate MAX_MEASUREMENTS zero_timespec,
      measurementsSubscriber = 0,
      dataModificationTime = zero_timespec,
      dataReceiveTime = zero_timespec\<rparr>"

section \<open>The main function\<close>

text \<open>
  The command line as \<^verbatim>\<open>getopt_long_only\<close> reports it: one entry for every option it
  returns, with the value that \<^verbatim>\<open>atof\<close> or \<^verbatim>\<open>atoi\<close> reads from the argument. An
  option it does not know makes it return \<^verbatim>\<open>'?'\<close>, for which the \<^verbatim>\<open>switch\<close> has no
  case.
\<close>

datatype cli_option =
    Opt_interface string
  | Opt_cycleTimeInMsec double
  | Opt_socketPriority "32 word"
  | Opt_pubPriority "32 word"
  | Opt_subPriority "32 word"
  | Opt_userAppPriority "32 word"
  | Opt_pubCore "32 word"
  | Opt_subCore "32 word"
  | Opt_userAppCore "32 word"
  | Opt_pubMacAddress string
  | Opt_subMacAddress string
  | Opt_qbvOffset "32 word"
  | Opt_disableSoTxtime
  | Opt_enableCsvLog
  | Opt_help
  | Opt_unrecognised

record settings =
  interface :: "string option"
  cycleTimeInMsec :: double
  socketPriority :: "32 word"
  pubPriority :: "32 word"
  subPriority :: "32 word"
  userAppPriority :: "32 word"
  pubCore :: "32 word"
  subCore :: "32 word"
  userAppCore :: "32 word"
  pubMacAddress :: string
  subMacAddress :: string
  qbvOffset :: "32 word"
  disableSoTxtime :: bool
  enableCsvLog :: bool

definition default_settings :: settings where
  "default_settings =
     \<lparr>interface = None, cycleTimeInMsec = 1 / 4, socketPriority = 3,
      pubPriority = 78, subPriority = 81, userAppPriority = 75,
      pubCore = 2, subCore = 2, userAppCore = 3,
      pubMacAddress = ''opc.eth://01-00-5E-7F-00-01:8.3'',
      subMacAddress = ''opc.eth://01-00-5E-00-00-01:8.3'',
      qbvOffset = 125, disableSoTxtime = True, enableCsvLog = False\<rparr>"

text \<open>The option loop; \<open>None\<close> is the \<^verbatim>\<open>return -1\<close> of \<^verbatim>\<open>-help\<close>.\<close>

fun process_options :: "cli_option list \<Rightarrow> settings \<Rightarrow> settings option" where
  "process_options [] cfg = Some cfg"
| "process_options (Opt_interface a # opts) cfg =
     process_options opts (cfg\<lparr>interface := Some a\<rparr>)"
| "process_options (Opt_cycleTimeInMsec x # opts) cfg =
     process_options opts (cfg\<lparr>cycleTimeInMsec := x\<rparr>)"
| "process_options (Opt_socketPriority n # opts) cfg =
     process_options opts (cfg\<lparr>socketPriority := n\<rparr>)"
| "process_options (Opt_pubPriority n # opts) cfg =
     process_options opts (cfg\<lparr>pubPriority := n\<rparr>)"
| "process_options (Opt_subPriority n # opts) cfg =
     process_options opts (cfg\<lparr>subPriority := n\<rparr>)"
| "process_options (Opt_userAppPriority n # opts) cfg =
     process_options opts (cfg\<lparr>userAppPriority := n\<rparr>)"
| "process_options (Opt_pubCore n # opts) cfg =
     process_options opts (cfg\<lparr>pubCore := n\<rparr>)"
| "process_options (Opt_subCore n # opts) cfg =
     process_options opts (cfg\<lparr>subCore := n\<rparr>)"
| "process_options (Opt_userAppCore n # opts) cfg =
     process_options opts (cfg\<lparr>userAppCore := n\<rparr>)"
| "process_options (Opt_pubMacAddress a # opts) cfg =
     process_options opts (cfg\<lparr>pubMacAddress := a\<rparr>)"
| "process_options (Opt_subMacAddress a # opts) cfg =
     process_options opts (cfg\<lparr>subMacAddress := a\<rparr>)"
| "process_options (Opt_qbvOffset n # opts) cfg =
     process_options opts (cfg\<lparr>qbvOffset := n\<rparr>)"
| "process_options (Opt_disableSoTxtime # opts) cfg =
     process_options opts (cfg\<lparr>disableSoTxtime := False\<rparr>)"
| "process_options (Opt_enableCsvLog # opts) cfg =
     process_options opts (cfg\<lparr>enableCsvLog := True\<rparr>)"
| "process_options (Opt_help # opts) cfg = None"
| "process_options (Opt_unrecognised # opts) cfg = process_options opts cfg"

text \<open>
  What \<^verbatim>\<open>main\<close> does is recorded as a list of events. \<open>Ev_PubSubSetup\<close> stands for
  the calls from \<^verbatim>\<open>addServerNodes\<close> to \<^verbatim>\<open>UA_Server_setReaderGroupOperational\<close>: the
  library calls \<^verbatim>\<open>addPubSubApplicationCallback\<close>, which creates the publisher and the
  subscriber thread, from these calls or from \<^verbatim>\<open>UA_Server_run\<close>. The environment
  says what the allocation, the scheduler calls and the server return.
\<close>

datatype role = Publisher | Subscriber | UserApplication

datatype event =
    Ev_LogError
  | Ev_Usage
  | Ev_ServerConfig
  | Ev_ServerDelete
  | Ev_PubSubSetup
  | Ev_ThreadCreation role
  | Ev_ServerRun
  | Ev_ThreadJoin role
  | Ev_Cleanup

record os_env =
  malloc_ok :: bool
  setschedparam_ok :: bool
  setaffinity_ok :: bool
  pthread_create_ok :: bool
  server_run_status :: "32 word"

text \<open>\<^verbatim>\<open>threadCreation\<close>: \<open>Inl\<close> is \<^verbatim>\<open>exit(1)\<close>.\<close>

definition threadCreation :: "os_env \<Rightarrow> role \<Rightarrow> 32 word + event list" where
  "threadCreation env r =
     (if \<not> setschedparam_ok env then Inl 1
      else if \<not> setaffinity_ok env then Inl 1
      else if pthread_create_ok env then Inr [Ev_ThreadCreation r]
      else Inr [])"

text \<open>\<^verbatim>\<open>main\<close>: the value it returns, or the process exits with, and its events.\<close>

definition main :: "cli_option list \<Rightarrow> os_env \<Rightarrow> 32 word \<times> event list" where
  "main opts env =
     (case process_options opts default_settings of
        None \<Rightarrow> (- 1, [Ev_Usage])
      | Some cfg \<Rightarrow>
          if interface cfg = None then (- 1, [Ev_LogError, Ev_Usage])
          else if cycleTimeInMsec cfg < 1 / 8 then (- 1, [Ev_LogError, Ev_Usage])
          else if \<not> malloc_ok env then (1, [Ev_ServerConfig, Ev_ServerDelete])
          else (case threadCreation env UserApplication of
                  Inl status \<Rightarrow> (status, [Ev_ServerConfig, Ev_PubSubSetup])
                | Inr created \<Rightarrow>
                    (server_run_status env,
                     [Ev_ServerConfig, Ev_PubSubSetup] @ created @
                     [Ev_ServerRun, Ev_ThreadJoin UserApplication, Ev_Cleanup])))"

section \<open>The specification's formulas\<close>

text \<open>
  The specification's periodic task runner, step Init: read the clock, add the start
  delay to the seconds, set the nanoseconds to the phase offset fraction times the
  period in nanoseconds, and normalise.
\<close>

definition periodic_task_init :: "double \<Rightarrow> double \<Rightarrow> 64 word \<Rightarrow> timespec \<Rightarrow> timespec option" where
  "periodic_task_init phaseOffsetFraction periodNanoseconds startDelaySeconds t0 =
     (case double_to_int64 (dmul phaseOffsetFraction periodNanoseconds) of
        None \<Rightarrow> None
      | Some nanoseconds \<Rightarrow>
          Some (nanoSecondFieldConversion
                  \<lparr>tv_sec = tv_sec t0 + startDelaySeconds, tv_nsec = nanoseconds\<rparr>))"

text \<open>
  The specification's transmission timestamp for a cycle that starts at \<open>T\<close>:
  \<open>T + P + (P - P \<times> fraction) + offset\<close>.
\<close>

definition spec_transmission_time :: "rat \<Rightarrow> rat \<Rightarrow> rat \<Rightarrow> rat \<Rightarrow> rat" where
  "spec_transmission_time T P fraction offset = T + P + (P - P * fraction) + offset"

text \<open>
  The specification's logging step of the user logic: one record for the producer
  side and one for the consumer side, each behind its capacity check only.
\<close>

definition spec_log_measurements :: "iteration_env \<Rightarrow> app_state \<Rightarrow> app_state" where
  "spec_log_measurements env s =
     updateMeasurementsSubscriber (clock_receive env) (subCounterData env)
       (updateMeasurementsPublisher (clock_modification env) (pubCounterData s) s)"

text \<open>A deadline as a signed number of nanoseconds.\<close>

definition timespec_int :: "timespec \<Rightarrow> int" where
  "timespec_int t = sint (tv_sec t) * 1000000000 + sint (tv_nsec t)"

text \<open>Inputs of one round of the user application loop, for the examples.\<close>

definition sample_env :: iteration_env where
  "sample_env = \<lparr>clock_modification = \<lparr>tv_sec = 1700000005, tv_nsec = 75100\<rparr>,
                 clock_receive = \<lparr>tv_sec = 1700000005, tv_nsec = 75200\<rparr>,
                 subCounterData = 0\<rparr>"

definition sample_env_received :: iteration_env where
  "sample_env_received = sample_env\<lparr>subCounterData := 5\<rparr>"

text \<open>Globals with counters that are not 0, for the examples.\<close>

definition sample_state :: app_state where
  "sample_state = initial_state\<lparr>pubCounterData := 41, repeatedCounterData := [7, 9]\<rparr>"

definition sample_os_env :: os_env where
  "sample_os_env =
     \<lparr>malloc_ok = True, setschedparam_ok = True, setaffinity_ok = True,
      pthread_create_ok = True, server_run_status = 0\<rparr>"

section \<open>Properties of the time arithmetic\<close>

lemma sint_SECONDS_minus_1: "sint (SECONDS - 1) = 999999999"
  by (simp add: SECONDS_def)

lemma nsec_overflow_iff: "SECONDS - 1 <s n \<longleftrightarrow> 999999999 < sint n"
  by (simp add: word_sless_alt sint_SECONDS_minus_1)

lemma sint_sub_SECONDS:
  assumes "999999999 < sint (n :: 64 word)"
  shows "sint (n - SECONDS) = sint n - 1000000000"
proof -
  have lt: "sint n < 2 ^ 63" using sint_lt [of n] by simp
  have ss: "sint (SECONDS :: 64 word) = 1000000000" by (simp add: SECONDS_def)
  have "sint (n - SECONDS) = signed_take_bit 63 (sint n - 1000000000)"
    by (simp add: sint_word_ariths ss)
  also have "\<dots> = sint n - 1000000000"
    using assms lt by (intro signed_take_bit_int_eq_self) auto
  finally show ?thesis .
qed

lemma nanoSecondFieldConversion_noop:
  "sint (tv_nsec t) < 1000000000 \<Longrightarrow> nanoSecondFieldConversion t = t"
  by (subst nanoSecondFieldConversion.simps) (simp add: nsec_overflow_iff)

lemma nanoSecondFieldConversion_closed:
  "0 \<le> sint (tv_nsec t) \<Longrightarrow>
   nanoSecondFieldConversion t =
     t\<lparr>tv_sec := tv_sec t + word_of_int (sint (tv_nsec t) div 1000000000),
       tv_nsec := word_of_int (sint (tv_nsec t) mod 1000000000)\<rparr>"
proof (induction t rule: nanoSecondFieldConversion.induct)
  case (1 t)
  let ?n = "sint (tv_nsec t)"
  show ?case
  proof (cases "999999999 < ?n")
    case True
    let ?t' = "t\<lparr>tv_sec := tv_sec t + SECONDS_INCREMENT, tv_nsec := tv_nsec t - SECONDS\<rparr>"
    have n': "sint (tv_nsec ?t') = ?n - 1000000000"
      using sint_sub_SECONDS [OF True] by simp
    have d: "(?n - 1000000000) div 1000000000 = ?n div 1000000000 - 1"
      using div_add_self2 [of "1000000000 :: int" "?n - 1000000000"] by simp
    have m: "(?n - 1000000000) mod 1000000000 = ?n mod 1000000000"
      using mod_add_self2 [of "?n - 1000000000" "1000000000 :: int"] by simp
    have ih: "nanoSecondFieldConversion ?t' =
        ?t'\<lparr>tv_sec := tv_sec ?t' + word_of_int (sint (tv_nsec ?t') div 1000000000),
           tv_nsec := word_of_int (sint (tv_nsec ?t') mod 1000000000)\<rparr>"
      using True n' by (intro "1.IH") (simp_all add: nsec_overflow_iff)
    have "nanoSecondFieldConversion t = nanoSecondFieldConversion ?t'"
      using True by (subst nanoSecondFieldConversion.simps) (simp add: nsec_overflow_iff)
    also note ih
    finally show ?thesis
      by (simp add: sint_sub_SECONDS [OF True] d m SECONDS_INCREMENT_def)
  next
    case False
    with "1.prems" have "?n div 1000000000 = 0" "?n mod 1000000000 = ?n" by simp_all
    moreover have "nanoSecondFieldConversion t = t"
      using False by (rule_tac nanoSecondFieldConversion_noop) simp
    ultimately show ?thesis by simp
  qed
qed

lemma sint_word_of_int_64:
  "- (2 ^ 63) \<le> k \<Longrightarrow> k < 2 ^ 63 \<Longrightarrow> sint (word_of_int k :: 64 word) = k"
  by (simp add: sint_sbintrunc' signed_take_bit_int_eq_self)

lemma sint_add_64:
  fixes a b :: "64 word"
  assumes "- (2 ^ 63) \<le> sint a + sint b" "sint a + sint b < 2 ^ 63"
  shows "sint (a + b) = sint a + sint b"
  using assms by (simp add: sint_word_ariths signed_take_bit_int_eq_self)

lemma nanoSecondFieldConversion_nsec_sint:
  assumes "0 \<le> sint (tv_nsec t)"
  shows "sint (tv_nsec (nanoSecondFieldConversion t)) = sint (tv_nsec t) mod 1000000000"
proof -
  have "0 \<le> sint (tv_nsec t) mod 1000000000" "sint (tv_nsec t) mod 1000000000 < 1000000000"
    by simp_all
  then show ?thesis
    by (simp add: nanoSecondFieldConversion_closed [OF assms] sint_word_of_int_64)
qed

lemma nanoSecondFieldConversion_sec_sint:
  assumes "0 \<le> sint (tv_nsec t)"
    and "sint (tv_sec t) + sint (tv_nsec t) div 1000000000 < 2 ^ 63"
  shows "sint (tv_sec (nanoSecondFieldConversion t)) =
           sint (tv_sec t) + sint (tv_nsec t) div 1000000000"
proof -
  let ?d = "sint (tv_nsec t) div 1000000000"
  have nlt: "sint (tv_nsec t) < 2 ^ 63" using sint_lt [of "tv_nsec t"] by simp
  have d: "0 \<le> ?d" "?d < 2 ^ 63"
    using assms(1) nlt by (simp_all add: pos_imp_zdiv_nonneg_iff div_less_iff_less_mult)
  have sd: "sint (word_of_int ?d :: 64 word) = ?d"
    using d by (simp add: sint_word_of_int_64)
  have "- (2 ^ 63) \<le> sint (tv_sec t)" using sint_ge [of "tv_sec t"] by simp
  with d(1) have "- (2 ^ 63) \<le> sint (tv_sec t) + ?d" by linarith
  then show ?thesis
    using assms(2) by (simp add: nanoSecondFieldConversion_closed [OF assms(1)] sint_add_64 sd)
qed

text \<open>
  C1. For a nanosecond field \<open>n \<ge> 0\<close>, \<^verbatim>\<open>nanoSecondFieldConversion\<close> leaves a
  nanosecond field \<open>n mod 10\<^sup>9\<close>, which lies in \<open>[0, 10\<^sup>9)\<close>, and a seconds field
  \<open>seconds + n div 10\<^sup>9\<close>: as 64-bit values always, and as signed integers whenever
  that sum is below \<open>2\<^sup>6\<^sup>3\<close>. For \<open>0 \<le> n < 10\<^sup>9\<close> the function changes nothing.
\<close>

theorem nanoSecondFieldConversion_nonneg:
  assumes "0 \<le> sint (tv_nsec t)"
  shows "0 \<le> sint (tv_nsec (nanoSecondFieldConversion t)) \<and>
         sint (tv_nsec (nanoSecondFieldConversion t)) < 1000000000 \<and>
         sint (tv_nsec (nanoSecondFieldConversion t)) = sint (tv_nsec t) mod 1000000000 \<and>
         tv_sec (nanoSecondFieldConversion t) =
           tv_sec t + word_of_int (sint (tv_nsec t) div 1000000000) \<and>
         (sint (tv_sec t) + sint (tv_nsec t) div 1000000000 < 2 ^ 63 \<longrightarrow>
            sint (tv_sec (nanoSecondFieldConversion t)) =
              sint (tv_sec t) + sint (tv_nsec t) div 1000000000) \<and>
         (sint (tv_nsec t) < 1000000000 \<longrightarrow> nanoSecondFieldConversion t = t)"
proof -
  have m: "0 \<le> sint (tv_nsec t) mod 1000000000" "sint (tv_nsec t) mod 1000000000 < 1000000000"
    by simp_all
  have sec: "tv_sec (nanoSecondFieldConversion t) =
           tv_sec t + word_of_int (sint (tv_nsec t) div 1000000000)"
    by (simp add: nanoSecondFieldConversion_closed [OF assms])
  show ?thesis
    using m sec nanoSecondFieldConversion_nsec_sint [OF assms]
      nanoSecondFieldConversion_sec_sint [OF assms] nanoSecondFieldConversion_noop [of t]
    by simp
qed

theorem nanoSecondFieldConversion_nonneg_witness:
  "0 \<le> sint (3500000123 :: 64 word) \<and>
   sint (tv_nsec (nanoSecondFieldConversion \<lparr>tv_sec = 7, tv_nsec = 3500000123\<rparr>)) = 500000123 \<and>
   tv_sec (nanoSecondFieldConversion \<lparr>tv_sec = 7, tv_nsec = 3500000123\<rparr>) = 10 \<and>
   sint (tv_sec (nanoSecondFieldConversion \<lparr>tv_sec = 7, tv_nsec = 3500000123\<rparr>)) = 10"
  using nanoSecondFieldConversion_nonneg [of "\<lparr>tv_sec = 7, tv_nsec = 3500000123\<rparr>"]
  by simp

text \<open>
  C9. A negative nanosecond field never passes the loop test, so both fields stay
  as they are: the range \<open>0 \<le> tv_nsec < 10\<^sup>9\<close> is restored for non-negative
  inputs only.
\<close>

theorem nanoSecondFieldConversion_negative:
  assumes "sint (tv_nsec t) < 0"
  shows "nanoSecondFieldConversion t = t \<and>
         tv_sec (nanoSecondFieldConversion t) = tv_sec t \<and>
         tv_nsec (nanoSecondFieldConversion t) = tv_nsec t \<and>
         sint (tv_nsec (nanoSecondFieldConversion t)) < 0"
proof -
  have "nanoSecondFieldConversion t = t"
    using assms by (intro nanoSecondFieldConversion_noop) simp
  with assms show ?thesis by simp
qed

theorem nanoSecondFieldConversion_negative_witness:
  "sint (- 5 :: 64 word) < 0 \<and>
   nanoSecondFieldConversion \<lparr>tv_sec = 7, tv_nsec = - 5\<rparr> = \<lparr>tv_sec = 7, tv_nsec = - 5\<rparr>"
  using nanoSecondFieldConversion_negative [of "\<lparr>tv_sec = 7, tv_nsec = - 5\<rparr>"]
  by simp

section \<open>Properties of the publisher thread\<close>

subsection \<open>Deadlines\<close>

lemma timespec_ns_nanoSecondFieldConversion:
  "timespec_ns (nanoSecondFieldConversion t) = timespec_ns t"
proof (induction t rule: nanoSecondFieldConversion.induct)
  case (1 t)
  show ?case
  proof (cases "SECONDS - 1 <s tv_nsec t")
    case True
    then have "timespec_ns (nanoSecondFieldConversion t) =
       timespec_ns (t\<lparr>tv_sec := tv_sec t + SECONDS_INCREMENT, tv_nsec := tv_nsec t - SECONDS\<rparr>)"
      using "1.IH" by (subst nanoSecondFieldConversion.simps) simp
    also have "\<dots> = timespec_ns t"
      by (simp add: timespec_ns_def SECONDS_def SECONDS_INCREMENT_def algebra_simps)
    finally show ?thesis .
  next
    case False
    then show ?thesis by (subst nanoSecondFieldConversion.simps) simp
  qed
qed

lemma timespec_ns_step:
  "timespec_ns (nanoSecondFieldConversion (t\<lparr>tv_nsec := tv_nsec t + p\<rparr>)) = timespec_ns t + p"
  by (simp add: timespec_ns_nanoSecondFieldConversion) (simp add: timespec_ns_def)

lemma publisherETF_loop_deadline:
  "k < length (publisherETF_loop polls p r q next0) \<Longrightarrow>
   timespec_ns (fst (publisherETF_loop polls p r q next0 ! k)) = timespec_ns next0 + of_nat k * p"
proof (induction polls arbitrary: next0 k)
  case Nil
  then show ?case by simp
next
  case (Cons b polls)
  show ?case
  proof (cases b)
    case False
    with Cons.prems show ?thesis by simp
  next
    case True
    show ?thesis
    proof (cases k)
      case 0
      with True show ?thesis by simp
    next
      case (Suc j)
      with True Cons.prems have "j < length (publisherETF_loop polls p r q
           (nanoSecondFieldConversion (next0\<lparr>tv_nsec := tv_nsec next0 + p\<rparr>)))" by simp
      from Cons.IH [OF this] have "timespec_ns (fst (publisherETF_loop polls p r q
           (nanoSecondFieldConversion (next0\<lparr>tv_nsec := tv_nsec next0 + p\<rparr>)) ! j)) =
           timespec_ns next0 + p + of_nat j * p"
        by (simp only: timespec_ns_step)
      with True Suc show ?thesis
        by (simp add: algebra_simps)
    qed
  qed
qed

lemma advance_sint:
  assumes n: "0 \<le> sint (tv_nsec t)" "sint (tv_nsec t) < 1000000000"
    and p: "0 \<le> sint p" "sint p < 2 ^ 63 - 1000000000"
    and s: "sint (tv_sec t) + (sint (tv_nsec t) + sint p) div 1000000000 < 2 ^ 63"
  shows "sint (tv_nsec (nanoSecondFieldConversion (t\<lparr>tv_nsec := tv_nsec t + p\<rparr>))) =
           (sint (tv_nsec t) + sint p) mod 1000000000"
    and "sint (tv_sec (nanoSecondFieldConversion (t\<lparr>tv_nsec := tv_nsec t + p\<rparr>))) =
           sint (tv_sec t) + (sint (tv_nsec t) + sint p) div 1000000000"
proof -
  let ?u = "t\<lparr>tv_nsec := tv_nsec t + p\<rparr>"
  have a: "sint (tv_nsec t + p) = sint (tv_nsec t) + sint p"
    using n p by (intro sint_add_64) simp_all
  then have u: "0 \<le> sint (tv_nsec ?u)" using n p by simp
  show "sint (tv_nsec (nanoSecondFieldConversion ?u)) = (sint (tv_nsec t) + sint p) mod 1000000000"
    using nanoSecondFieldConversion_nsec_sint [OF u] a by simp
  have "sint (tv_sec ?u) + sint (tv_nsec ?u) div 1000000000 < 2 ^ 63"
    using s a by simp
  from nanoSecondFieldConversion_sec_sint [OF u this] a
  show "sint (tv_sec (nanoSecondFieldConversion ?u)) =
           sint (tv_sec t) + (sint (tv_nsec t) + sint p) div 1000000000"
    by simp
qed

lemma div_mod_shift:
  "(a mod 1000000000 + b) div 1000000000 + a div 1000000000 = (a + b) div (1000000000 :: int)"
proof -
  have "(a + b) div 1000000000 =
        (a div 1000000000 * 1000000000 + (a mod 1000000000 + b)) div 1000000000"
    by (simp add: algebra_simps)
  also have "\<dots> = a div 1000000000 + (a mod 1000000000 + b) div 1000000000"
    by (rule div_mult_self3) simp
  finally show ?thesis by simp
qed

lemma publisherETF_loop_deadline_int:
  assumes "k < length (publisherETF_loop polls p r q next0)"
    and "0 \<le> sint (tv_nsec next0)" "sint (tv_nsec next0) < 1000000000"
    and "0 \<le> sint p" "sint p < 2 ^ 63 - 1000000000"
    and "sint (tv_sec next0) + (sint (tv_nsec next0) + int k * sint p) div 1000000000 < 2 ^ 63"
  shows "timespec_int (fst (publisherETF_loop polls p r q next0 ! k)) =
           timespec_int next0 + int k * sint p \<and>
         0 \<le> sint (tv_nsec (fst (publisherETF_loop polls p r q next0 ! k))) \<and>
         sint (tv_nsec (fst (publisherETF_loop polls p r q next0 ! k))) < 1000000000"
  using assms
proof (induction polls arbitrary: next0 k)
  case Nil
  then show ?case by simp
next
  case (Cons b polls)
  show ?case
  proof (cases b)
    case False
    with Cons.prems show ?thesis by simp
  next
    case True
    show ?thesis
    proof (cases k)
      case 0
      with True Cons.prems show ?thesis by simp
    next
      case (Suc j)
      let ?n = "sint (tv_nsec next0)"
      let ?P = "sint p"
      let ?next1 = "nanoSecondFieldConversion (next0\<lparr>tv_nsec := tv_nsec next0 + p\<rparr>)"
      have len: "j < length (publisherETF_loop polls p r q ?next1)"
        using True Suc Cons.prems(1) by simp
      have jp: "0 \<le> int j * ?P" using Cons.prems(4) by simp
      have "(?n + ?P) div 1000000000 \<le> (?n + int k * ?P) div 1000000000"
        using jp Suc by (intro zdiv_mono1) (simp_all add: algebra_simps)
      then have s1: "sint (tv_sec next0) + (?n + ?P) div 1000000000 < 2 ^ 63"
        using Cons.prems(6) by linarith
      note adv = advance_sint [OF Cons.prems(2,3,4,5) s1]
      have n1: "0 \<le> sint (tv_nsec ?next1)" "sint (tv_nsec ?next1) < 1000000000"
        using adv(1) by simp_all
      have kj: "?n + int k * ?P = ?n + ?P + int j * ?P"
        using Suc by (simp add: algebra_simps)
      have "sint (tv_sec ?next1) + (sint (tv_nsec ?next1) + int j * ?P) div 1000000000 =
            sint (tv_sec next0) + (?n + ?P) div 1000000000 +
              ((?n + ?P) mod 1000000000 + int j * ?P) div 1000000000"
        by (simp only: adv)
      also have "\<dots> = sint (tv_sec next0) + (?n + int k * ?P) div 1000000000"
        using div_mod_shift [of "?n + ?P" "int j * ?P"] by (simp only: kj)
      finally have s2:
        "sint (tv_sec ?next1) + (sint (tv_nsec ?next1) + int j * ?P) div 1000000000 < 2 ^ 63"
        using Cons.prems(6) by simp
      note ih = Cons.IH [OF len n1 Cons.prems(4,5) s2]
      have "timespec_int ?next1 =
          (sint (tv_sec next0) + (?n + ?P) div 1000000000) * 1000000000 + (?n + ?P) mod 1000000000"
        unfolding timespec_int_def by (simp only: adv)
      also have "\<dots> = timespec_int next0 + ?P"
        by (simp add: timespec_int_def algebra_simps)
      finally have "timespec_int ?next1 = timespec_int next0 + ?P" .
      with ih True Suc show ?thesis
        by (simp add: algebra_simps)
    qed
  qed
qed

lemma publisherETF_loop_length:
  "length (publisherETF_loop (replicate N True @ False # rest) p r q next0) = N"
  by (induction N arbitrary: next0) simp_all

text \<open>
  C2. Every round of the publisher loop adds the period to the nanosecond field and
  normalises, so the deadline of round \<open>k\<close> is the first deadline plus \<open>k\<close> periods:
  as 64-bit nanosecond counts for every input, and as signed integers, with a
  normalised nanosecond field, when the first deadline is normalised, the period is
  at least \<open>0\<close> and below \<open>2\<^sup>6\<^sup>3 - 10\<^sup>9\<close>, and the seconds stay below \<open>2\<^sup>6\<^sup>3\<close>. The
  loop runs \<open>N\<close> rounds when its test finds the flag set \<open>N\<close> times.
\<close>

theorem publisherETF_loop_no_drift:
  assumes "k < length (publisherETF_loop polls interval_ns roundOff qbv next0)"
  shows "timespec_ns (fst (publisherETF_loop polls interval_ns roundOff qbv next0 ! k)) =
           timespec_ns next0 + of_nat k * interval_ns \<and>
         (0 \<le> sint (tv_nsec next0) \<and> sint (tv_nsec next0) < 1000000000 \<and>
          0 \<le> sint interval_ns \<and> sint interval_ns < 2 ^ 63 - 1000000000 \<and>
          sint (tv_sec next0) + (sint (tv_nsec next0) + int k * sint interval_ns) div 1000000000
            < 2 ^ 63 \<longrightarrow>
          timespec_int (fst (publisherETF_loop polls interval_ns roundOff qbv next0 ! k)) =
            timespec_int next0 + int k * sint interval_ns \<and>
          0 \<le> sint (tv_nsec (fst (publisherETF_loop polls interval_ns roundOff qbv next0 ! k))) \<and>
          sint (tv_nsec (fst (publisherETF_loop polls interval_ns roundOff qbv next0 ! k)))
            < 1000000000) \<and>
         length (publisherETF_loop (replicate N True @ False # rest) interval_ns roundOff qbv next0)
           = N"
  using publisherETF_loop_deadline [OF assms] publisherETF_loop_deadline_int [OF assms]
    publisherETF_loop_length [of N rest interval_ns roundOff qbv next0]
  by blast

theorem publisherETF_loop_no_drift_witness:
  "2 < length (publisherETF_loop [True, True, True] 250000 100000 125
                 \<lparr>tv_sec = 105, tv_nsec = 999900000\<rparr>) \<and>
   timespec_ns (fst (publisherETF_loop [True, True, True] 250000 100000 125
                 \<lparr>tv_sec = 105, tv_nsec = 999900000\<rparr> ! 2)) = 106000400000 \<and>
   timespec_int (fst (publisherETF_loop [True, True, True] 250000 100000 125
                 \<lparr>tv_sec = 105, tv_nsec = 999900000\<rparr> ! 2)) = 106000400000"
  using publisherETF_loop_no_drift
          [where k = 2 and polls = "[True, True, True]" and interval_ns = 250000
             and roundOff = 100000 and qbv = 125
             and ?next0.0 = "\<lparr>tv_sec = 105, tv_nsec = 999900000\<rparr>"]
  by (simp add: timespec_ns_def timespec_int_def)

subsection \<open>The transmission time\<close>

lemma interval_quarter: "publisherETF_interval_ns (1 / 4) = Some 250000"
  by code_simp

lemma roundOff_quarter: "roundOffCycleTime (1 / 4) = Some 100000"
  by code_simp

lemma nsec_quarter:
  "double_to_int64 (dmul (times_MILLI_SECONDS (1 / 4)) pubWakeupPercentage) = Some 150000"
  by code_simp

lemma init_quarter:
  "publisherETF_init (1 / 4) now = Some (now\<lparr>tv_sec := tv_sec now + 5, tv_nsec := 150000\<rparr>)"
  by (simp add: publisherETF_init_def nsec_quarter nanoSecondFieldConversion_noop SECONDS_SLEEP_def)

lemma publisherETF_quarter:
  "publisherETF (1 / 4) (1 / 4) q now polls =
     Some (publisherETF_loop polls 250000 100000 q
             (now\<lparr>tv_sec := tv_sec now + 5, tv_nsec := 150000\<rparr>))"
  by (simp add: publisherETF_def interval_quarter roundOff_quarter init_quarter)

lemma publisherETF_loop_transmission:
  "k < length (publisherETF_loop polls p r q next0) \<Longrightarrow>
   snd (publisherETF_loop polls p r q next0 ! k) =
     transmission_time_of (fst (publisherETF_loop polls p r q next0 ! k)) r q"
proof (induction polls arbitrary: next0 k)
  case Nil
  then show ?case by simp
next
  case (Cons b polls)
  then show ?case by (cases b; cases k) simp_all
qed

text \<open>
  C3, as the specification states it, fails. With a cycle time of 0.25 ms, the clock
  at 1700000000 s and the loop entered once, the thread sleeps until
  1700000005 s + 150000 ns and computes the transmission time 1700000005 s + 375000 ns.
  That is neither \<open>T + P + (P - P \<times> 0.6) + offset\<close> for the start
  \<open>T\<close> = 1700000005 s of the cycle, nor for the deadline \<open>T\<close> = 1700000005 s + 150000 ns.
\<close>

theorem publisherETF_transmission_time_counterexample:
  "publisherETF (1 / 4) (1 / 4) 125 \<lparr>tv_sec = 1700000000, tv_nsec = 123456789\<rparr> [True] =
     Some [(\<lparr>tv_sec = 1700000005, tv_nsec = 150000\<rparr>, 1700000005000375000)] \<and>
   of_nat (unat (1700000005000375000 :: 64 word)) \<noteq>
     spec_transmission_time 1700000005000000000 250000 (6 / 10) 125000 \<and>
   of_nat (unat (1700000005000375000 :: 64 word)) \<noteq>
     spec_transmission_time 1700000005000150000 250000 (6 / 10) 125000"
  by (simp add: publisherETF_quarter transmission_time_of_def timespec_ns_def
        spec_transmission_time_def)

text \<open>
  C3, amended. With a cycle time of 0.25 ms, a wake-up fraction of 0.6 and a Qbv
  offset of 125, the thread computes the period 250000 ns and the remainder
  \<open>P - P \<times> 0.6\<close> = 100000 ns without rounding error. Cycle \<open>k\<close> starts at
  \<open>T = (now.tv_sec + 5) s + k \<times> P\<close>; the thread wakes at \<open>T + 150000\<close> and computes the
  transmission time as this deadline \<open>+ 100000 + 125000\<close>, which is \<open>T + P + offset\<close>,
  in unsigned 64-bit arithmetic.
\<close>

theorem publisherETF_transmission_time:
  "publisherETF (1 / 4) (1 / 4) 125 now polls =
     Some (publisherETF_loop polls 250000 100000 125
             (now\<lparr>tv_sec := tv_sec now + 5, tv_nsec := 150000\<rparr>)) \<and>
   (\<forall>k < length (publisherETF_loop polls 250000 100000 125
                   (now\<lparr>tv_sec := tv_sec now + 5, tv_nsec := 150000\<rparr>)).
      timespec_ns (fst (publisherETF_loop polls 250000 100000 125
                   (now\<lparr>tv_sec := tv_sec now + 5, tv_nsec := 150000\<rparr>) ! k)) =
        ((tv_sec now + 5) * 1000000000 + of_nat k * 250000) + 150000 \<and>
      snd (publisherETF_loop polls 250000 100000 125
                   (now\<lparr>tv_sec := tv_sec now + 5, tv_nsec := 150000\<rparr>) ! k) =
        timespec_ns (fst (publisherETF_loop polls 250000 100000 125
                   (now\<lparr>tv_sec := tv_sec now + 5, tv_nsec := 150000\<rparr>) ! k)) + 100000 + 125000 \<and>
      snd (publisherETF_loop polls 250000 100000 125
                   (now\<lparr>tv_sec := tv_sec now + 5, tv_nsec := 150000\<rparr>) ! k) =
        ((tv_sec now + 5) * 1000000000 + of_nat k * 250000) + 250000 + 125000)"
proof (intro conjI allI impI)
  let ?next0 = "now\<lparr>tv_sec := tv_sec now + 5, tv_nsec := 150000\<rparr>"
  let ?fired = "publisherETF_loop polls 250000 100000 125 ?next0"
  show "publisherETF (1 / 4) (1 / 4) 125 now polls = Some ?fired"
    by (rule publisherETF_quarter)
  fix k assume k: "k < length ?fired"
  have d: "timespec_ns (fst (?fired ! k)) = timespec_ns ?next0 + of_nat k * 250000"
    by (rule publisherETF_loop_deadline [OF k])
  then show d': "timespec_ns (fst (?fired ! k)) =
      ((tv_sec now + 5) * 1000000000 + of_nat k * 250000) + 150000"
    by (simp add: timespec_ns_def)
  have t: "snd (?fired ! k) = transmission_time_of (fst (?fired ! k)) 100000 125"
    by (rule publisherETF_loop_transmission [OF k])
  then show t': "snd (?fired ! k) = timespec_ns (fst (?fired ! k)) + 100000 + 125000"
    by (simp add: transmission_time_of_def)
  show "snd (?fired ! k) = ((tv_sec now + 5) * 1000000000 + of_nat k * 250000) + 250000 + 125000"
    unfolding t' d' by simp
qed

theorem publisherETF_transmission_time_witness:
  "publisherETF (1 / 4) (1 / 4) 125 \<lparr>tv_sec = 1700000000, tv_nsec = 123456789\<rparr> [True, True] =
     Some (publisherETF_loop [True, True] 250000 100000 125
             \<lparr>tv_sec = 1700000005, tv_nsec = 150000\<rparr>) \<and>
   1 < length (publisherETF_loop [True, True] 250000 100000 125
             \<lparr>tv_sec = 1700000005, tv_nsec = 150000\<rparr>) \<and>
   snd (publisherETF_loop [True, True] 250000 100000 125
             \<lparr>tv_sec = 1700000005, tv_nsec = 150000\<rparr> ! 1) = 1700000005000625000"
  using publisherETF_transmission_time
          [of "\<lparr>tv_sec = 1700000000, tv_nsec = 123456789\<rparr>" "[True, True]", THEN conjunct1]
        publisherETF_transmission_time
          [of "\<lparr>tv_sec = 1700000000, tv_nsec = 123456789\<rparr>" "[True, True]", THEN conjunct2,
           THEN spec, of 1]
  by simp

section \<open>The first deadline of every role\<close>

lemma round_double_0 [simp]: "round_double 0 = 0"
  by (simp add: round_double_def)

lemma round_double_nonneg: "0 \<le> x \<Longrightarrow> 0 \<le> round_double x"
  by (auto simp: round_double_def Let_def split: prod.splits
           intro!: mult_nonneg_nonneg)

lemma dmul_commute: "dmul x y = dmul y x"
  by (simp add: dmul_def mult.commute)

lemma double_to_int64_0 [simp]: "double_to_int64 0 = Some 0"
  by (simp add: double_to_int64_def trunc_toward_zero_def)

lemma double_to_int64_nonneg:
  "0 \<le> x \<Longrightarrow> double_to_int64 x = Some n \<Longrightarrow> 0 \<le> sint n"
  by (auto simp: double_to_int64_def trunc_toward_zero_def Let_def sint_word_of_int_64
           split: if_splits)

lemma timespec_update_eq:
  "now\<lparr>tv_sec := a, tv_nsec := b\<rparr> = \<lparr>tv_sec = a, tv_nsec = b\<rparr>"
  by (cases now) simp

lemma periodic_task_init_normalised:
  assumes "0 \<le> f" "0 \<le> p" "periodic_task_init f p d t0 = Some deadline"
  shows "0 \<le> sint (tv_nsec deadline) \<and> sint (tv_nsec deadline) < 1000000000"
proof -
  from assms(3) obtain n where n: "double_to_int64 (dmul f p) = Some n"
    and nx: "deadline = nanoSecondFieldConversion \<lparr>tv_sec = tv_sec t0 + d, tv_nsec = n\<rparr>"
    by (auto simp: periodic_task_init_def split: option.splits)
  have "0 \<le> dmul f p" using assms(1,2) by (simp add: dmul_def round_double_nonneg)
  from double_to_int64_nonneg [OF this n] have "0 \<le> sint n" .
  then have "sint (tv_nsec deadline) = sint n mod 1000000000"
    unfolding nx by (subst nanoSecondFieldConversion_nsec_sint) simp_all
  then show ?thesis by simp
qed

lemma times_MILLI_SECONDS_nonneg: "0 \<le> c \<Longrightarrow> 0 \<le> times_MILLI_SECONDS c"
  by (simp add: times_MILLI_SECONDS_def dmul_def round_double_nonneg)

lemma wakeup_nonneg:
  "0 \<le> pubWakeupPercentage" "0 \<le> subWakeupPercentage" "0 \<le> userAppWakeupPercentage"
  by (simp_all add: pubWakeupPercentage_def subWakeupPercentage_def userAppWakeupPercentage_def
        round_double_nonneg)

lemma user_nsec_quarter:
  "double_to_int64 (dmul (times_MILLI_SECONDS (1 / 4)) userAppWakeupPercentage) = Some 75000"
  by code_simp

text \<open>
  C4. Each of the three threads starts from the clock reading \<open>t0\<close>, adds 5 to its
  seconds, sets the nanosecond field to its wake-up fraction times the cycle time in
  nanoseconds (the double product, truncated) and normalises: each first deadline is
  the one of the specification's Init step. The subscriber casts its fraction alone;
  the fraction is 0, and so is the product. For a cycle time that is not negative
  the nanosecond field of the first deadline lies in \<open>[0, 10\<^sup>9)\<close>.
\<close>

theorem role_init_deadline:
  "publisherETF_init c t0 =
     periodic_task_init pubWakeupPercentage (times_MILLI_SECONDS c) 5 t0 \<and>
   subscriber_init t0 =
     periodic_task_init subWakeupPercentage (times_MILLI_SECONDS c) 5 t0 \<and>
   userApplicationPubSub_init_time c t0 =
     periodic_task_init userAppWakeupPercentage (times_MILLI_SECONDS c) 5 t0 \<and>
   (0 \<le> c \<longrightarrow>
      (\<forall>deadline. publisherETF_init c t0 = Some deadline \<or> subscriber_init t0 = Some deadline \<or>
              userApplicationPubSub_init_time c t0 = Some deadline \<longrightarrow>
         0 \<le> sint (tv_nsec deadline) \<and> sint (tv_nsec deadline) < 1000000000))"
proof -
  have p: "publisherETF_init c t0 =
     periodic_task_init pubWakeupPercentage (times_MILLI_SECONDS c) 5 t0"
    by (simp add: publisherETF_init_def periodic_task_init_def dmul_commute [of pubWakeupPercentage]
          SECONDS_SLEEP_def timespec_update_eq split: option.splits)
  have s: "subscriber_init t0 =
     periodic_task_init subWakeupPercentage (times_MILLI_SECONDS c) 5 t0"
    by (simp add: subscriber_init_def periodic_task_init_def dmul_def subWakeupPercentage_def
          SECONDS_SLEEP_def timespec_update_eq split: option.splits)
  have u: "userApplicationPubSub_init_time c t0 =
     periodic_task_init userAppWakeupPercentage (times_MILLI_SECONDS c) 5 t0"
    by (simp add: userApplicationPubSub_init_time_def periodic_task_init_def
          dmul_commute [of userAppWakeupPercentage] SECONDS_SLEEP_def timespec_update_eq
          split: option.splits)
  have n: "0 \<le> sint (tv_nsec deadline) \<and> sint (tv_nsec deadline) < 1000000000"
    if "0 \<le> c" and "publisherETF_init c t0 = Some deadline \<or> subscriber_init t0 = Some deadline \<or>
              userApplicationPubSub_init_time c t0 = Some deadline" for deadline
    using that(2) periodic_task_init_normalised [OF _ times_MILLI_SECONDS_nonneg [OF that(1)]]
      wakeup_nonneg unfolding p s u by blast
  show ?thesis using p s u n by blast
qed

theorem role_init_deadline_witness:
  "(0 :: rat) \<le> 1 / 4 \<and>
   publisherETF_init (1 / 4) \<lparr>tv_sec = 1700000000, tv_nsec = 123456789\<rparr> =
     Some \<lparr>tv_sec = 1700000005, tv_nsec = 150000\<rparr> \<and>
   subscriber_init \<lparr>tv_sec = 1700000000, tv_nsec = 123456789\<rparr> =
     Some \<lparr>tv_sec = 1700000005, tv_nsec = 0\<rparr> \<and>
   userApplicationPubSub_init_time (1 / 4) \<lparr>tv_sec = 1700000000, tv_nsec = 123456789\<rparr> =
     Some \<lparr>tv_sec = 1700000005, tv_nsec = 75000\<rparr> \<and>
   sint (tv_nsec \<lparr>tv_sec = 1700000005, tv_nsec = 150000 :: 64 word\<rparr>) < 1000000000"
  using role_init_deadline [of "1 / 4" "\<lparr>tv_sec = 1700000000, tv_nsec = 123456789\<rparr>"]
  by (simp add: init_quarter subscriber_init_def subWakeupPercentage_def
        userApplicationPubSub_init_time_def user_nsec_quarter SECONDS_SLEEP_def
        nanoSecondFieldConversion_noop)

section \<open>Properties of the measurement records\<close>

lemma pub_prefix:
  assumes "length (publishCounterValue s) = MAX_MEASUREMENTS"
    and "length (publishTimestamp s) = MAX_MEASUREMENTS"
    and "measurementsPublisher s + length calls \<le> MAX_MEASUREMENTS"
  shows "let s' = foldl (\<lambda>s c. updateMeasurementsPublisher (fst c) (snd c) s) s calls in
         measurementsPublisher s' = measurementsPublisher s + length calls \<and>
         publishCounterValue s' =
           take (measurementsPublisher s) (publishCounterValue s) @ map snd calls @
           drop (measurementsPublisher s + length calls) (publishCounterValue s) \<and>
         publishTimestamp s' =
           take (measurementsPublisher s) (publishTimestamp s) @ map fst calls @
           drop (measurementsPublisher s + length calls) (publishTimestamp s) \<and>
         running s' = running s"
  using assms
proof (induction calls arbitrary: s)
  case Nil
  then show ?case by simp
next
  case (Cons c calls)
  let ?s1 = "updateMeasurementsPublisher (fst c) (snd c) s"
  let ?m = "measurementsPublisher s"
  have lt: "?m < MAX_MEASUREMENTS" using Cons.prems(3) by simp
  have s1: "measurementsPublisher ?s1 = Suc ?m"
       "publishCounterValue ?s1 = (publishCounterValue s)[?m := snd c]"
       "publishTimestamp ?s1 = (publishTimestamp s)[?m := fst c]"
       "running ?s1 = running s"
    using lt by (simp_all add: updateMeasurementsPublisher_def)
  have ih: "let s' = foldl (\<lambda>s c. updateMeasurementsPublisher (fst c) (snd c) s) ?s1 calls in
         measurementsPublisher s' = measurementsPublisher ?s1 + length calls \<and>
         publishCounterValue s' =
           take (measurementsPublisher ?s1) (publishCounterValue ?s1) @ map snd calls @
           drop (measurementsPublisher ?s1 + length calls) (publishCounterValue ?s1) \<and>
         publishTimestamp s' =
           take (measurementsPublisher ?s1) (publishTimestamp ?s1) @ map fst calls @
           drop (measurementsPublisher ?s1 + length calls) (publishTimestamp ?s1) \<and>
         running s' = running ?s1"
    using Cons.prems s1 by (intro Cons.IH) simp_all
  have t1: "take (Suc ?m) ((publishCounterValue s)[?m := snd c]) = take ?m (publishCounterValue s) @ [snd c]"
    using lt Cons.prems(1) by (simp add: take_Suc_conv_app_nth)
  have t2: "take (Suc ?m) ((publishTimestamp s)[?m := fst c]) = take ?m (publishTimestamp s) @ [fst c]"
    using lt Cons.prems(2) by (simp add: take_Suc_conv_app_nth)
  show ?case
    using ih by (simp add: Let_def s1 t1 t2)
qed

lemma sub_prefix:
  assumes "length (subscribeCounterValue s) = MAX_MEASUREMENTS"
    and "length (subscribeTimestamp s) = MAX_MEASUREMENTS"
    and "measurementsSubscriber s + length calls \<le> MAX_MEASUREMENTS"
  shows "let s' = foldl (\<lambda>s c. updateMeasurementsSubscriber (fst c) (snd c) s) s calls in
         measurementsSubscriber s' = measurementsSubscriber s + length calls \<and>
         subscribeCounterValue s' =
           take (measurementsSubscriber s) (subscribeCounterValue s) @ map snd calls @
           drop (measurementsSubscriber s + length calls) (subscribeCounterValue s) \<and>
         subscribeTimestamp s' =
           take (measurementsSubscriber s) (subscribeTimestamp s) @ map fst calls @
           drop (measurementsSubscriber s + length calls) (subscribeTimestamp s) \<and>
         running s' = running s"
  using assms
proof (induction calls arbitrary: s)
  case Nil
  then show ?case by simp
next
  case (Cons c calls)
  let ?s1 = "updateMeasurementsSubscriber (fst c) (snd c) s"
  let ?m = "measurementsSubscriber s"
  have lt: "?m < MAX_MEASUREMENTS" using Cons.prems(3) by simp
  have s1: "measurementsSubscriber ?s1 = Suc ?m"
       "subscribeCounterValue ?s1 = (subscribeCounterValue s)[?m := snd c]"
       "subscribeTimestamp ?s1 = (subscribeTimestamp s)[?m := fst c]"
       "running ?s1 = running s"
    using lt by (simp_all add: updateMeasurementsSubscriber_def)
  have ih: "let s' = foldl (\<lambda>s c. updateMeasurementsSubscriber (fst c) (snd c) s) ?s1 calls in
         measurementsSubscriber s' = measurementsSubscriber ?s1 + length calls \<and>
         subscribeCounterValue s' =
           take (measurementsSubscriber ?s1) (subscribeCounterValue ?s1) @ map snd calls @
           drop (measurementsSubscriber ?s1 + length calls) (subscribeCounterValue ?s1) \<and>
         subscribeTimestamp s' =
           take (measurementsSubscriber ?s1) (subscribeTimestamp ?s1) @ map fst calls @
           drop (measurementsSubscriber ?s1 + length calls) (subscribeTimestamp ?s1) \<and>
         running s' = running ?s1"
    using Cons.prems s1 by (intro Cons.IH) simp_all
  have t1: "take (Suc ?m) ((subscribeCounterValue s)[?m := snd c]) =
              take ?m (subscribeCounterValue s) @ [snd c]"
    using lt Cons.prems(1) by (simp add: take_Suc_conv_app_nth)
  have t2: "take (Suc ?m) ((subscribeTimestamp s)[?m := fst c]) =
              take ?m (subscribeTimestamp s) @ [fst c]"
    using lt Cons.prems(2) by (simp add: take_Suc_conv_app_nth)
  show ?case
    using ih by (simp add: Let_def s1 t1 t2)
qed

lemma pub_full:
  assumes "length (publishCounterValue s) = MAX_MEASUREMENTS"
    and "length (publishTimestamp s) = MAX_MEASUREMENTS"
    and "measurementsPublisher s = 0"
    and "length calls = MAX_MEASUREMENTS"
  shows "measurementsPublisher (foldl (\<lambda>s c. updateMeasurementsPublisher (fst c) (snd c) s) s calls)
           = MAX_MEASUREMENTS"
    and "publishCounterValue (foldl (\<lambda>s c. updateMeasurementsPublisher (fst c) (snd c) s) s calls)
           = map snd calls"
    and "publishTimestamp (foldl (\<lambda>s c. updateMeasurementsPublisher (fst c) (snd c) s) s calls)
           = map fst calls"
    and "running (foldl (\<lambda>s c. updateMeasurementsPublisher (fst c) (snd c) s) s calls) = running s"
  using pub_prefix [of s calls] assms by (simp_all add: Let_def)

lemma sub_full:
  assumes "length (subscribeCounterValue s) = MAX_MEASUREMENTS"
    and "length (subscribeTimestamp s) = MAX_MEASUREMENTS"
    and "measurementsSubscriber s = 0"
    and "length calls = MAX_MEASUREMENTS"
  shows "measurementsSubscriber (foldl (\<lambda>s c. updateMeasurementsSubscriber (fst c) (snd c) s) s calls)
           = MAX_MEASUREMENTS"
    and "subscribeCounterValue (foldl (\<lambda>s c. updateMeasurementsSubscriber (fst c) (snd c) s) s calls)
           = map snd calls"
    and "subscribeTimestamp (foldl (\<lambda>s c. updateMeasurementsSubscriber (fst c) (snd c) s) s calls)
           = map fst calls"
    and "running (foldl (\<lambda>s c. updateMeasurementsSubscriber (fst c) (snd c) s) s calls) = running s"
  using sub_prefix [of s calls] assms by (simp_all add: Let_def)

lemma updateMeasurementsPublisher_full:
  "measurementsPublisher s = MAX_MEASUREMENTS \<Longrightarrow>
   updateMeasurementsPublisher t v s = s\<lparr>running := False\<rparr>"
  by (simp add: updateMeasurementsPublisher_def)

lemma updateMeasurementsSubscriber_full:
  "measurementsSubscriber s = MAX_MEASUREMENTS \<Longrightarrow>
   updateMeasurementsSubscriber t v s = s\<lparr>running := False\<rparr>"
  by (simp add: updateMeasurementsSubscriber_def)

lemma loop_stopped:
  "\<not> running (snd st) \<Longrightarrow> userApplicationPubSub_loop csv p envs st = st"
  by (cases envs) simp_all

lemma split_last_call:
  "length calls = MAX_MEASUREMENTS + 1 \<Longrightarrow>
   calls = take MAX_MEASUREMENTS calls @ [calls ! MAX_MEASUREMENTS] \<and>
   length (take MAX_MEASUREMENTS calls) = MAX_MEASUREMENTS"
  by (simp add: take_Suc_conv_app_nth [symmetric])

text \<open>
  C5. From empty records, \<^verbatim>\<open>MAX_MEASUREMENTS + 1\<close> calls of an update function store
  the first \<^verbatim>\<open>MAX_MEASUREMENTS\<close> pairs in call order and leave the count at
  \<^verbatim>\<open>MAX_MEASUREMENTS\<close>; the last call changes nothing but \<^verbatim>\<open>running\<close>, which it
  clears, so that the user application loop stops at its next test. This holds for
  the publisher's and for the subscriber's record.
\<close>

theorem updateMeasurements_overflow:
  assumes "length calls = MAX_MEASUREMENTS + 1"
    and "measurementsPublisher s = 0" "measurementsSubscriber s = 0"
    and "length (publishCounterValue s) = MAX_MEASUREMENTS"
    and "length (publishTimestamp s) = MAX_MEASUREMENTS"
    and "length (subscribeCounterValue s) = MAX_MEASUREMENTS"
    and "length (subscribeTimestamp s) = MAX_MEASUREMENTS"
  shows "(let before = foldl (\<lambda>s c. updateMeasurementsPublisher (fst c) (snd c) s) s
                         (take MAX_MEASUREMENTS calls);
              after = foldl (\<lambda>s c. updateMeasurementsPublisher (fst c) (snd c) s) s calls
          in measurementsPublisher after = MAX_MEASUREMENTS \<and>
             publishCounterValue after = map snd (take MAX_MEASUREMENTS calls) \<and>
             publishTimestamp after = map fst (take MAX_MEASUREMENTS calls) \<and>
             after = before\<lparr>running := False\<rparr> \<and>
             running after = False \<and>
             userApplicationPubSub_loop csv p envs (d, after) = (d, after)) \<and>
         (let before = foldl (\<lambda>s c. updateMeasurementsSubscriber (fst c) (snd c) s) s
                         (take MAX_MEASUREMENTS calls);
              after = foldl (\<lambda>s c. updateMeasurementsSubscriber (fst c) (snd c) s) s calls
          in measurementsSubscriber after = MAX_MEASUREMENTS \<and>
             subscribeCounterValue after = map snd (take MAX_MEASUREMENTS calls) \<and>
             subscribeTimestamp after = map fst (take MAX_MEASUREMENTS calls) \<and>
             after = before\<lparr>running := False\<rparr> \<and>
             running after = False \<and>
             userApplicationPubSub_loop csv p envs (d, after) = (d, after))"
proof -
  let ?cs = "take MAX_MEASUREMENTS calls"
  let ?c = "calls ! MAX_MEASUREMENTS"
  let ?fp = "\<lambda>s c. updateMeasurementsPublisher (fst c) (snd c) s"
  let ?fs = "\<lambda>s c. updateMeasurementsSubscriber (fst c) (snd c) s"
  have sp: "calls = ?cs @ [?c]" and len: "length ?cs = MAX_MEASUREMENTS"
    using split_last_call [OF assms(1)] by simp_all
  have ap: "foldl ?fp s calls = ?fp (foldl ?fp s ?cs) ?c"
    by (subst sp) (simp only: foldl_append foldl.simps)
  have aq: "foldl ?fs s calls = ?fs (foldl ?fs s ?cs) ?c"
    by (subst sp) (simp only: foldl_append foldl.simps)
  note P = pub_full [OF assms(4,5,2) len]
  note S = sub_full [OF assms(6,7,3) len]
  have p: "foldl ?fp s calls = (foldl ?fp s ?cs)\<lparr>running := False\<rparr>"
    unfolding ap by (rule updateMeasurementsPublisher_full [OF P(1)])
  have q: "foldl ?fs s calls = (foldl ?fs s ?cs)\<lparr>running := False\<rparr>"
    unfolding aq by (rule updateMeasurementsSubscriber_full [OF S(1)])
  show ?thesis
    unfolding Let_def p q using P S by (simp add: loop_stopped)
qed

theorem updateMeasurements_overflow_witness:
  "length (replicate (MAX_MEASUREMENTS + 1) (\<lparr>tv_sec = 1700000005, tv_nsec = 75000\<rparr>, 7 :: 64 word))
     = MAX_MEASUREMENTS + 1 \<and>
   measurementsPublisher initial_state = 0 \<and>
   measurementsSubscriber initial_state = 0 \<and>
   length (publishCounterValue initial_state) = MAX_MEASUREMENTS \<and>
   length (publishTimestamp initial_state) = MAX_MEASUREMENTS \<and>
   length (subscribeCounterValue initial_state) = MAX_MEASUREMENTS \<and>
   length (subscribeTimestamp initial_state) = MAX_MEASUREMENTS \<and>
   measurementsPublisher
     (foldl (\<lambda>s c. updateMeasurementsPublisher (fst c) (snd c) s) initial_state
        (replicate (MAX_MEASUREMENTS + 1) (\<lparr>tv_sec = 1700000005, tv_nsec = 75000\<rparr>, 7)))
     = MAX_MEASUREMENTS \<and>
   running
     (foldl (\<lambda>s c. updateMeasurementsPublisher (fst c) (snd c) s) initial_state
        (replicate (MAX_MEASUREMENTS + 1) (\<lparr>tv_sec = 1700000005, tv_nsec = 75000\<rparr>, 7)))
     = False \<and>
   measurementsSubscriber
     (foldl (\<lambda>s c. updateMeasurementsSubscriber (fst c) (snd c) s) initial_state
        (replicate (MAX_MEASUREMENTS + 1) (\<lparr>tv_sec = 1700000005, tv_nsec = 75000\<rparr>, 7)))
     = MAX_MEASUREMENTS \<and>
   running
     (foldl (\<lambda>s c. updateMeasurementsSubscriber (fst c) (snd c) s) initial_state
        (replicate (MAX_MEASUREMENTS + 1) (\<lparr>tv_sec = 1700000005, tv_nsec = 75000\<rparr>, 7)))
     = False"
proof -
  let ?calls = "replicate (MAX_MEASUREMENTS + 1) (\<lparr>tv_sec = 1700000005, tv_nsec = 75000\<rparr>, 7 :: 64 word)"
  have h: "length ?calls = MAX_MEASUREMENTS + 1"
    "measurementsPublisher initial_state = 0" "measurementsSubscriber initial_state = 0"
    "length (publishCounterValue initial_state) = MAX_MEASUREMENTS"
    "length (publishTimestamp initial_state) = MAX_MEASUREMENTS"
    "length (subscribeCounterValue initial_state) = MAX_MEASUREMENTS"
    "length (subscribeTimestamp initial_state) = MAX_MEASUREMENTS"
    by (simp_all add: initial_state_def)
  note th = updateMeasurements_overflow [OF h, unfolded Let_def]
  show ?thesis using h th by blast
qed

section \<open>Properties of the user application thread\<close>

lemma length2_cases: "length xs = REPEATED_NODECOUNTS \<Longrightarrow> \<exists>a b. xs = [a, b]"
  by (cases xs; cases "tl xs"; cases "tl (tl xs)") (auto simp: REPEATED_NODECOUNTS_def)

lemma upt_REPEATED_NODECOUNTS: "[0..<REPEATED_NODECOUNTS] = [0, 1]"
  by (simp add: REPEATED_NODECOUNTS_def upt_rec)

lemma set_repeatedCounterData_eq:
  "length cells = REPEATED_NODECOUNTS \<Longrightarrow>
   set_repeatedCounterData v cells = replicate REPEATED_NODECOUNTS v"
  by (drule length2_cases)
     (auto simp: set_repeatedCounterData_def upt_REPEATED_NODECOUNTS REPEATED_NODECOUNTS_def
                 numeral_2_eq_2)

lemma increment_repeatedCounterData_eq:
  "length cells = REPEATED_NODECOUNTS \<Longrightarrow>
   increment_repeatedCounterData cells = map (\<lambda>c. c + 1) cells"
  by (drule length2_cases)
     (auto simp: increment_repeatedCounterData_def upt_REPEATED_NODECOUNTS)

lemma updateMeasurementsPublisher_counters [simp]:
  "pubCounterData (updateMeasurementsPublisher t v s) = pubCounterData s"
  "repeatedCounterData (updateMeasurementsPublisher t v s) = repeatedCounterData s"
  by (simp_all add: updateMeasurementsPublisher_def)

lemma updateMeasurementsSubscriber_counters [simp]:
  "pubCounterData (updateMeasurementsSubscriber t v s) = pubCounterData s"
  "repeatedCounterData (updateMeasurementsSubscriber t v s) = repeatedCounterData s"
  by (simp_all add: updateMeasurementsSubscriber_def)

lemma body_pubCounterData:
  "pubCounterData (snd (userApplicationPubSub_body csv p st env)) = pubCounterData (snd st) + 1"
  by (simp add: userApplicationPubSub_body_def Let_def)

lemma body_repeatedCounterData:
  "repeatedCounterData (snd (userApplicationPubSub_body csv p st env)) =
     increment_repeatedCounterData (repeatedCounterData (snd st))"
  by (simp add: userApplicationPubSub_body_def Let_def)

lemma iterate_pubCounterData:
  "pubCounterData (snd (foldl (userApplicationPubSub_body csv p) st envs)) =
     pubCounterData (snd st) + of_nat (length envs)"
proof (induction envs arbitrary: st)
  case Nil
  then show ?case by simp
next
  case (Cons env envs)
  show ?case
    by (simp add: Cons.IH body_pubCounterData)
qed

lemma iterate_repeatedCounterData:
  "length (repeatedCounterData (snd st)) = REPEATED_NODECOUNTS \<Longrightarrow>
   repeatedCounterData (snd (foldl (userApplicationPubSub_body csv p) st envs)) =
     map (\<lambda>c. c + of_nat (length envs)) (repeatedCounterData (snd st))"
proof (induction envs arbitrary: st)
  case Nil
  then show ?case by simp
next
  case (Cons env envs)
  let ?st1 = "userApplicationPubSub_body csv p st env"
  have r1: "repeatedCounterData (snd ?st1) = map (\<lambda>c. c + 1) (repeatedCounterData (snd st))"
    using Cons.prems by (simp add: body_repeatedCounterData increment_repeatedCounterData_eq)
  then have "length (repeatedCounterData (snd ?st1)) = REPEATED_NODECOUNTS"
    using Cons.prems by simp
  from Cons.IH [OF this] show ?case
    by (simp add: r1 comp_def algebra_simps)
qed

lemma loop_prefix:
  "\<exists>n\<le>length envs.
     userApplicationPubSub_loop csv p envs st = foldl (userApplicationPubSub_body csv p) st (take n envs)"
proof (induction envs arbitrary: st)
  case Nil
  then show ?case by simp
next
  case (Cons env envs)
  show ?case
  proof (cases "running (snd st)")
    case False
    then have "userApplicationPubSub_loop csv p (env # envs) st =
      foldl (userApplicationPubSub_body csv p) st (take 0 (env # envs))" by simp
    then show ?thesis by blast
  next
    case True
    obtain n where n: "n \<le> length envs"
      "userApplicationPubSub_loop csv p envs (userApplicationPubSub_body csv p st env) =
       foldl (userApplicationPubSub_body csv p) (userApplicationPubSub_body csv p st env) (take n envs)"
      using Cons.IH by blast
    then have "userApplicationPubSub_loop csv p (env # envs) st =
      foldl (userApplicationPubSub_body csv p) st (take (Suc n) (env # envs))"
      using True by simp
    moreover have "Suc n \<le> length (env # envs)" using n(1) by simp
    ultimately show ?thesis by blast
  qed
qed

lemma body_running_nolog:
  "running (snd (userApplicationPubSub_body False p st env)) = running (snd st)"
  by (simp add: userApplicationPubSub_body_def Let_def)

lemma loop_nolog:
  "running (snd st) \<Longrightarrow>
   userApplicationPubSub_loop False p envs st = foldl (userApplicationPubSub_body False p) st envs"
  by (induction envs arbitrary: st) (simp_all add: body_running_nolog)

lemma unat_add_of_nat_64:
  "unat (w :: 64 word) + n < 2 ^ 64 \<Longrightarrow> unat (w + of_nat n) = unat w + n"
  by (simp add: unat_word_ariths unat_of_nat take_bit_nat_eq_self)

lemma replicate_REPEATED_NODECOUNTS: "replicate REPEATED_NODECOUNTS x = [x, x]"
  by (simp add: REPEATED_NODECOUNTS_def numeral_2_eq_2)

lemma MAX_MEASUREMENTS_pos: "0 < MAX_MEASUREMENTS"
  by (simp add: MAX_MEASUREMENTS_def)

text \<open>
  C6. One round of the user application loop adds exactly 1 to the producer counter,
  and nothing else in the round writes it. After \<open>N\<close> rounds the counter is its
  first value plus \<open>N\<close>: as an unsigned 64-bit value always, and as a number while
  the sum stays below \<open>2\<^sup>6\<^sup>4\<close>. The loop itself, which stops when \<^verbatim>\<open>running\<close> is
  cleared, runs some number \<open>n\<close> of rounds and leaves the first value plus \<open>n\<close>.
\<close>

theorem userApplicationPubSub_counter_increments:
  "pubCounterData (snd (userApplicationPubSub_body csv p st env)) = pubCounterData (snd st) + 1 \<and>
   pubCounterData (snd (foldl (userApplicationPubSub_body csv p) st envs)) =
     pubCounterData (snd st) + of_nat (length envs) \<and>
   (unat (pubCounterData (snd st)) + length envs < 2 ^ 64 \<longrightarrow>
      unat (pubCounterData (snd (foldl (userApplicationPubSub_body csv p) st envs))) =
        unat (pubCounterData (snd st)) + length envs) \<and>
   (\<exists>n\<le>length envs.
      userApplicationPubSub_loop csv p envs st =
        foldl (userApplicationPubSub_body csv p) st (take n envs) \<and>
      pubCounterData (snd (userApplicationPubSub_loop csv p envs st)) =
        pubCounterData (snd st) + of_nat n)"
proof (intro conjI impI)
  show "pubCounterData (snd (userApplicationPubSub_body csv p st env)) = pubCounterData (snd st) + 1"
    by (rule body_pubCounterData)
  show it: "pubCounterData (snd (foldl (userApplicationPubSub_body csv p) st envs)) =
     pubCounterData (snd st) + of_nat (length envs)"
    by (rule iterate_pubCounterData)
  show "unat (pubCounterData (snd (foldl (userApplicationPubSub_body csv p) st envs))) =
        unat (pubCounterData (snd st)) + length envs"
    if "unat (pubCounterData (snd st)) + length envs < 2 ^ 64"
    unfolding it using that by (rule unat_add_of_nat_64)
  obtain n where n: "n \<le> length envs"
    "userApplicationPubSub_loop csv p envs st =
       foldl (userApplicationPubSub_body csv p) st (take n envs)"
    using loop_prefix by blast
  have "pubCounterData (snd (userApplicationPubSub_loop csv p envs st)) =
        pubCounterData (snd st) + of_nat n"
    unfolding n(2) using n(1) by (simp add: iterate_pubCounterData)
  with n show "\<exists>n\<le>length envs.
      userApplicationPubSub_loop csv p envs st =
        foldl (userApplicationPubSub_body csv p) st (take n envs) \<and>
      pubCounterData (snd (userApplicationPubSub_loop csv p envs st)) =
        pubCounterData (snd st) + of_nat n"
    by blast
qed

theorem userApplicationPubSub_counter_increments_witness:
  "unat (pubCounterData (snd (\<lparr>tv_sec = 1700000005, tv_nsec = 75000\<rparr>, initial_state\<lparr>pubCounterData := 41\<rparr>)))
     + length [sample_env, sample_env, sample_env] < 2 ^ 64 \<and>
   unat (pubCounterData (snd (foldl (userApplicationPubSub_body True 250000)
           (\<lparr>tv_sec = 1700000005, tv_nsec = 75000\<rparr>, initial_state\<lparr>pubCounterData := 41\<rparr>)
           [sample_env, sample_env, sample_env]))) = 44"
  using userApplicationPubSub_counter_increments
          [of True 250000 "(\<lparr>tv_sec = 1700000005, tv_nsec = 75000\<rparr>, initial_state\<lparr>pubCounterData := 41\<rparr>)"
              sample_env "[sample_env, sample_env, sample_env]"]
  by simp

text \<open>
  C8, as the specification states it, fails. With logging enabled, an empty consumer
  record and \<^verbatim>\<open>*subCounterData\<close> equal to 0, the round appends to the producer record
  and leaves the consumer record as it is, where an append behind the capacity check
  alone would store a pair.
\<close>

theorem userApplicationPubSub_measurement_logging_counterexample:
  "measurementsSubscriber initial_state < MAX_MEASUREMENTS \<and>
   measurementsSubscriber (spec_log_measurements sample_env initial_state) = 1 \<and>
   measurementsPublisher
     (snd (userApplicationPubSub_body True 250000
             (\<lparr>tv_sec = 1700000005, tv_nsec = 75000\<rparr>, initial_state) sample_env)) = 1 \<and>
   measurementsSubscriber
     (snd (userApplicationPubSub_body True 250000
             (\<lparr>tv_sec = 1700000005, tv_nsec = 75000\<rparr>, initial_state) sample_env)) = 0 \<and>
   subscribeCounterValue
     (snd (userApplicationPubSub_body True 250000
             (\<lparr>tv_sec = 1700000005, tv_nsec = 75000\<rparr>, initial_state) sample_env)) =
     subscribeCounterValue initial_state"
  using MAX_MEASUREMENTS_pos
  by (simp add: userApplicationPubSub_body_def spec_log_measurements_def
        updateMeasurementsPublisher_def updateMeasurementsSubscriber_def
        initial_state_def sample_env_def Let_def)

text \<open>
  C8, amended. In a round with logging enabled the producer record gets the pair of
  the incremented producer counter and the first clock reading, behind the capacity
  check alone (a full record clears \<^verbatim>\<open>running\<close> instead). The consumer record gets
  the pair of \<^verbatim>\<open>*subCounterData\<close> and the second clock reading behind its capacity
  check only if \<^verbatim>\<open>*subCounterData\<close> is greater than 0; otherwise it stays as it is.
  With logging disabled neither record changes.
\<close>

theorem userApplicationPubSub_measurement_logging:
  "(let s = snd st;
        s' = snd (userApplicationPubSub_body True p st env);
        m = measurementsPublisher s;
        n = measurementsSubscriber s
    in (if m < MAX_MEASUREMENTS
        then measurementsPublisher s' = m + 1 \<and>
             publishCounterValue s' = (publishCounterValue s)[m := pubCounterData s + 1] \<and>
             publishTimestamp s' = (publishTimestamp s)[m := clock_modification env]
        else measurementsPublisher s' = m \<and>
             publishCounterValue s' = publishCounterValue s \<and>
             publishTimestamp s' = publishTimestamp s \<and>
             running s' = False) \<and>
       (if 0 < subCounterData env
        then (if n < MAX_MEASUREMENTS
              then measurementsSubscriber s' = n + 1 \<and>
                   subscribeCounterValue s' = (subscribeCounterValue s)[n := subCounterData env] \<and>
                   subscribeTimestamp s' = (subscribeTimestamp s)[n := clock_receive env]
              else measurementsSubscriber s' = n \<and>
                   subscribeCounterValue s' = subscribeCounterValue s \<and>
                   subscribeTimestamp s' = subscribeTimestamp s \<and>
                   running s' = False)
        else measurementsSubscriber s' = n \<and>
             subscribeCounterValue s' = subscribeCounterValue s \<and>
             subscribeTimestamp s' = subscribeTimestamp s)) \<and>
   (let s = snd st;
        s' = snd (userApplicationPubSub_body False p st env)
    in measurementsPublisher s' = measurementsPublisher s \<and>
       publishCounterValue s' = publishCounterValue s \<and>
       publishTimestamp s' = publishTimestamp s \<and>
       measurementsSubscriber s' = measurementsSubscriber s \<and>
       subscribeCounterValue s' = subscribeCounterValue s \<and>
       subscribeTimestamp s' = subscribeTimestamp s \<and>
       running s' = running s)"
  by (simp add: userApplicationPubSub_body_def updateMeasurementsPublisher_def
        updateMeasurementsSubscriber_def Let_def)

theorem userApplicationPubSub_measurement_logging_witness:
  "measurementsPublisher
     (snd (userApplicationPubSub_body True 250000
             (\<lparr>tv_sec = 1700000005, tv_nsec = 75000\<rparr>, initial_state) sample_env_received)) = 1 \<and>
   measurementsSubscriber
     (snd (userApplicationPubSub_body True 250000
             (\<lparr>tv_sec = 1700000005, tv_nsec = 75000\<rparr>, initial_state) sample_env_received)) = 1 \<and>
   subscribeCounterValue
     (snd (userApplicationPubSub_body True 250000
             (\<lparr>tv_sec = 1700000005, tv_nsec = 75000\<rparr>, initial_state) sample_env_received)) =
     (replicate MAX_MEASUREMENTS 0)[0 := 5] \<and>
   publishCounterValue
     (snd (userApplicationPubSub_body True 250000
             (\<lparr>tv_sec = 1700000005, tv_nsec = 75000\<rparr>, initial_state) sample_env_received)) =
     (replicate MAX_MEASUREMENTS 0)[0 := 1]"
  using userApplicationPubSub_measurement_logging
          [of "(\<lparr>tv_sec = 1700000005, tv_nsec = 75000\<rparr>, initial_state)" 250000 sample_env_received]
        MAX_MEASUREMENTS_pos
  by (simp add: Let_def initial_state_def sample_env_received_def sample_env_def)

subsection \<open>The thread function\<close>

lemma body_keeps_running:
  assumes "running (snd st)"
    and "csv \<longrightarrow> measurementsPublisher (snd st) < MAX_MEASUREMENTS \<and>
                measurementsSubscriber (snd st) < MAX_MEASUREMENTS"
  shows "running (snd (userApplicationPubSub_body csv p st env)) \<and>
         measurementsPublisher (snd (userApplicationPubSub_body csv p st env))
           \<le> Suc (measurementsPublisher (snd st)) \<and>
         measurementsSubscriber (snd (userApplicationPubSub_body csv p st env))
           \<le> Suc (measurementsSubscriber (snd st))"
  using assms
  by (auto simp: userApplicationPubSub_body_def updateMeasurementsPublisher_def
        updateMeasurementsSubscriber_def Let_def)

lemma loop_all_rounds:
  assumes "running (snd st)"
    and "csv \<longrightarrow> measurementsPublisher (snd st) + length envs \<le> MAX_MEASUREMENTS \<and>
                measurementsSubscriber (snd st) + length envs \<le> MAX_MEASUREMENTS"
  shows "userApplicationPubSub_loop csv p envs st = foldl (userApplicationPubSub_body csv p) st envs"
  using assms
proof (induction envs arbitrary: st)
  case Nil
  then show ?case by simp
next
  case (Cons env envs)
  let ?st1 = "userApplicationPubSub_body csv p st env"
  have c: "csv \<longrightarrow> measurementsPublisher (snd st) < MAX_MEASUREMENTS \<and>
                measurementsSubscriber (snd st) < MAX_MEASUREMENTS"
    using Cons.prems(2) by auto
  note k = body_keeps_running [OF Cons.prems(1) c, of p env]
  have "csv \<longrightarrow> measurementsPublisher (snd ?st1) + length envs \<le> MAX_MEASUREMENTS \<and>
                measurementsSubscriber (snd ?st1) + length envs \<le> MAX_MEASUREMENTS"
    using k Cons.prems(2) by auto
  with k have "userApplicationPubSub_loop csv p envs ?st1 =
      foldl (userApplicationPubSub_body csv p) ?st1 envs"
    by (intro Cons.IH) simp_all
  with Cons.prems(1) show ?case by simp
qed

lemma period_quarter: "double_to_int64 (times_MILLI_SECONDS (1 / 4)) = Some 250000"
  by code_simp

lemma user_init_quarter:
  "userApplicationPubSub_init_time (1 / 4) now =
     Some (now\<lparr>tv_sec := tv_sec now + 5, tv_nsec := 75000\<rparr>)"
  by (simp add: userApplicationPubSub_init_time_def user_nsec_quarter
        nanoSecondFieldConversion_noop SECONDS_SLEEP_def)

lemma userApplicationPubSub_quarter:
  "userApplicationPubSub csv (1 / 4) now envs s =
     Some (userApplicationPubSub_loop csv 250000 envs
             (now\<lparr>tv_sec := tv_sec now + 5, tv_nsec := 75000\<rparr>, userApplicationPubSub_reset s))"
  by (simp add: userApplicationPubSub_def user_init_quarter period_quarter)

lemma reset_keeps:
  "running (userApplicationPubSub_reset s) = running s"
  "measurementsPublisher (userApplicationPubSub_reset s) = measurementsPublisher s"
  "measurementsSubscriber (userApplicationPubSub_reset s) = measurementsSubscriber s"
  by (simp_all add: userApplicationPubSub_reset_def)

lemma bitlen_pos: "0 < a \<Longrightarrow> 1 \<le> bitlen a"
  using bitlen_nonneg [of a] bitlen_eq_zero_iff [of a] by linarith

lemma round_double_le_twice:
  assumes "0 \<le> x"
  shows "round_double x \<le> 2 * x"
proof (cases "x = 0")
  case True
  then show ?thesis by simp
next
  case False
  with assms have xp: "0 < x" by simp
  obtain p q where pq: "quotient_of x = (p, q)" by (cases "quotient_of x")
  have q: "0 < q" using quotient_of_denom_pos [OF pq] .
  have x: "x = of_int p / of_int q" using quotient_of_div [OF pq] .
  have p: "0 < p" using xp q x by (simp add: zero_less_divide_iff)
  define k where "k = bitlen p - bitlen q"
  define e where "e = (if 2 powi k \<le> x then k else k - 1) - 52"
  define y where "y = x / 2 powi e"
  have low: "(2 :: rat) powi (k - 1) \<le> x"
  proof -
    have bp: "2 ^ nat (bitlen p - 1) \<le> p" using bitlen_bounds [OF p] by simp
    have bq: "q \<le> 2 ^ nat (bitlen q)" using bitlen_bounds [OF q] by simp
    have b1: "0 \<le> bitlen p - 1" "0 \<le> bitlen q" using bitlen_pos [OF p] bitlen_pos [OF q] by simp_all
    have "(2 :: rat) powi (k - 1) = 2 powi (bitlen p - 1) / 2 powi (bitlen q)"
      unfolding k_def using power_int_diff [of "2 :: rat" "bitlen p - 1" "bitlen q"]
      by (simp add: algebra_simps)
    also have "\<dots> = 2 ^ nat (bitlen p - 1) / 2 ^ nat (bitlen q)"
      using b1 by (simp add: power_int_nonneg_exp)
    also have "\<dots> \<le> of_int p / of_int q"
    proof (rule frac_le)
      show "(0 :: rat) \<le> of_int p" using p by simp
      show "(2 :: rat) ^ nat (bitlen p - 1) \<le> of_int p"
        using of_int_le_iff [where ?'a = rat, of "2 ^ nat (bitlen p - 1)" p] bp by simp
      show "(0 :: rat) < of_int q" using q by simp
      show "(of_int q :: rat) \<le> 2 ^ nat (bitlen q)"
        using of_int_le_iff [where ?'a = rat, of q "2 ^ nat (bitlen q)"] bq by simp
    qed
    finally show ?thesis using x by simp
  qed
  have e52: "(2 :: rat) powi (e + 52) \<le> x"
    using low by (simp add: e_def)
  have pe: "(0 :: rat) < 2 powi e" by (simp add: power_int_def)
  have "(2 :: rat) powi (e + 52) = 2 powi e * 2 ^ 52"
    using power_int_add [of "2 :: rat" e 52] by simp
  with e52 have "2 ^ 52 \<le> y"
    unfolding y_def using pe by (simp add: pos_le_divide_eq mult.commute)
  then have y1: "1 \<le> y" by simp
  have f: "of_int \<lfloor>y\<rfloor> \<le> y" by (rule of_int_floor_le)
  have fl: "of_int \<lfloor>y\<rfloor> \<le> 2 * y" "of_int (\<lfloor>y\<rfloor> + 1) \<le> 2 * y"
  proof -
    show "of_int \<lfloor>y\<rfloor> \<le> 2 * y" using y1 f by linarith
    have "(of_int (\<lfloor>y\<rfloor> + 1) :: rat) = of_int \<lfloor>y\<rfloor> + 1" by simp
    then show "of_int (\<lfloor>y\<rfloor> + 1) \<le> 2 * y" using y1 f by linarith
  qed
  have xe: "2 * y * 2 powi e = 2 * x"
    unfolding y_def using pe by simp
  have m: "of_int m * 2 powi e \<le> 2 * x" if "of_int m \<le> 2 * y" for m
  proof -
    have "of_int m * 2 powi e \<le> 2 * y * 2 powi e"
      using that pe by (intro mult_right_mono) simp_all
    then show ?thesis by (simp only: xe)
  qed
  have "round_double x =
      of_int (if y - of_int \<lfloor>y\<rfloor> < 1 / 2 then \<lfloor>y\<rfloor>
              else if 1 / 2 < y - of_int \<lfloor>y\<rfloor> then \<lfloor>y\<rfloor> + 1
              else if even \<lfloor>y\<rfloor> then \<lfloor>y\<rfloor> else \<lfloor>y\<rfloor> + 1) * 2 powi e"
    using xp False pq by (simp add: round_double_def Let_def k_def e_def y_def)
  also have "\<dots> \<le> 2 * x"
    using fl by (intro m) (simp split: if_splits)
  finally show ?thesis .
qed

lemma double_to_int64_defined:
  assumes "0 \<le> x" "x < 2 ^ 63"
  shows "\<exists>n. double_to_int64 x = Some n"
proof -
  have "0 \<le> \<lfloor>x\<rfloor>" using assms(1) by simp
  moreover have "\<lfloor>x\<rfloor> < 2 ^ 63" using assms(2) by (simp add: floor_less_iff)
  ultimately show ?thesis
    using assms(1) by (simp add: double_to_int64_def trunc_toward_zero_def Let_def)
qed

lemma times_MILLI_SECONDS_le:
  assumes "0 \<le> c"
  shows "times_MILLI_SECONDS c \<le> 4000000 * c"
proof -
  have c: "0 \<le> c * 1000" using assms by simp
  have a: "0 \<le> dmul c 1000" "dmul c 1000 \<le> 2 * (c * 1000)"
    unfolding dmul_def by (rule round_double_nonneg [OF c], rule round_double_le_twice [OF c])
  have "0 \<le> dmul c 1000 * 1000" using a(1) by simp
  then have "dmul (dmul c 1000) 1000 \<le> 2 * (dmul c 1000 * 1000)"
    unfolding dmul_def [of "dmul c 1000"] by (rule round_double_le_twice)
  with a(2) show ?thesis by (simp add: times_MILLI_SECONDS_def)
qed

lemma userApplicationPubSub_defined:
  assumes "0 \<le> c" "c \<le> 1000000000"
  shows "\<exists>d q. userApplicationPubSub csv c now envs s =
           Some (userApplicationPubSub_loop csv q envs (d, userApplicationPubSub_reset s))"
proof -
  let ?t = "times_MILLI_SECONDS c"
  have t0: "0 \<le> ?t" by (rule times_MILLI_SECONDS_nonneg [OF assms(1)])
  have t1: "?t \<le> 4000000000000000"
    using times_MILLI_SECONDS_le [OF assms(1)] assms(2) by simp
  have w0: "0 \<le> userAppWakeupPercentage" by (rule wakeup_nonneg)
  have w1: "userAppWakeupPercentage \<le> 1"
    using round_double_le_twice [of "3 / 10"] by (simp add: userAppWakeupPercentage_def)
  have m0: "0 \<le> dmul ?t userAppWakeupPercentage"
    using t0 w0 by (simp add: dmul_def round_double_nonneg)
  have "?t * userAppWakeupPercentage \<le> 4000000000000000 * 1"
    using t0 t1 w0 w1 by (intro mult_mono) simp_all
  moreover have "0 \<le> ?t * userAppWakeupPercentage" using t0 w0 by simp
  then have "dmul ?t userAppWakeupPercentage \<le> 2 * (?t * userAppWakeupPercentage)"
    unfolding dmul_def [of ?t] by (rule round_double_le_twice)
  ultimately have m1: "dmul ?t userAppWakeupPercentage < 2 ^ 63" by simp
  have t2: "?t < 2 ^ 63" using t1 by simp
  obtain n where n: "double_to_int64 (dmul ?t userAppWakeupPercentage) = Some n"
    using double_to_int64_defined [OF m0 m1] by blast
  obtain q where q: "double_to_int64 ?t = Some q"
    using double_to_int64_defined [OF t0 t2] by blast
  have "userApplicationPubSub csv c now envs s =
          Some (userApplicationPubSub_loop csv q envs
                  (nanoSecondFieldConversion
                     (now\<lparr>tv_sec := tv_sec now + SECONDS_SLEEP, tv_nsec := n\<rparr>),
                   userApplicationPubSub_reset s))"
    by (simp add: userApplicationPubSub_def userApplicationPubSub_init_time_def n q)
  then show ?thesis by blast
qed

lemma three_le_MAX_MEASUREMENTS: "3 \<le> MAX_MEASUREMENTS"
  by (simp add: MAX_MEASUREMENTS_def)

text \<open>
  C10. Before its first round the thread sets the producer counter to 0 and each of
  the \<^verbatim>\<open>REPEATED_NODECOUNTS\<close> repeated counters to 10. After \<open>N\<close> rounds the producer
  counter is \<open>N\<close> and every repeated counter is \<open>10 + N\<close>: as unsigned 64-bit
  values always, and as numbers while \<open>N + 10\<close> stays below \<open>2\<^sup>6\<^sup>4\<close>. The thread
  function returns for every cycle time from 0 to \<open>10\<^sup>9\<close> ms, whatever the counters
  were before, with \<open>n\<close> and \<open>10 + n\<close> for the \<open>n\<close> rounds it ran; it runs all its
  rounds when \<^verbatim>\<open>running\<close> is set at the start and the measurement records have room
  for them. For the default cycle time of 0.25 ms its first deadline has the
  nanosecond field 75000 and its period is 250000 ns.
\<close>

theorem userApplicationPubSub_reset_counters:
  assumes "length (repeatedCounterData s) = REPEATED_NODECOUNTS"
  shows "pubCounterData (userApplicationPubSub_reset s) = 0 \<and>
         repeatedCounterData (userApplicationPubSub_reset s) = replicate REPEATED_NODECOUNTS 10 \<and>
         pubCounterData (snd (foldl (userApplicationPubSub_body csv p)
             (deadline, userApplicationPubSub_reset s) envs)) = of_nat (length envs) \<and>
         repeatedCounterData (snd (foldl (userApplicationPubSub_body csv p)
             (deadline, userApplicationPubSub_reset s) envs)) =
           replicate REPEATED_NODECOUNTS (10 + of_nat (length envs)) \<and>
         (length envs + 10 < 2 ^ 64 \<longrightarrow>
            unat (pubCounterData (snd (foldl (userApplicationPubSub_body csv p)
                (deadline, userApplicationPubSub_reset s) envs))) = length envs \<and>
            map unat (repeatedCounterData (snd (foldl (userApplicationPubSub_body csv p)
                (deadline, userApplicationPubSub_reset s) envs))) =
              replicate REPEATED_NODECOUNTS (10 + length envs)) \<and>
         (\<forall>r. userApplicationPubSub csv c now envs s = Some r \<longrightarrow>
            (\<exists>n\<le>length envs.
               pubCounterData (snd r) = of_nat n \<and>
               repeatedCounterData (snd r) = replicate REPEATED_NODECOUNTS (10 + of_nat n))) \<and>
         userApplicationPubSub csv (1 / 4) now envs s =
           Some (userApplicationPubSub_loop csv 250000 envs
                   (now\<lparr>tv_sec := tv_sec now + 5, tv_nsec := 75000\<rparr>,
                    userApplicationPubSub_reset s)) \<and>
         (0 \<le> c \<and> c \<le> 1000000000 \<longrightarrow>
            (\<exists>n\<le>length envs.
               map_option (\<lambda>r. (pubCounterData (snd r), repeatedCounterData (snd r)))
                 (userApplicationPubSub csv c now envs s) =
               Some (of_nat n, replicate REPEATED_NODECOUNTS (10 + of_nat n))) \<and>
            (running s \<and>
             (csv \<longrightarrow> measurementsPublisher s + length envs \<le> MAX_MEASUREMENTS \<and>
                     measurementsSubscriber s + length envs \<le> MAX_MEASUREMENTS) \<longrightarrow>
               map_option (\<lambda>r. (pubCounterData (snd r), repeatedCounterData (snd r)))
                 (userApplicationPubSub csv c now envs s) =
               Some (of_nat (length envs),
                     replicate REPEATED_NODECOUNTS (10 + of_nat (length envs)))))"
proof -
  let ?s0 = "userApplicationPubSub_reset s"
  let ?f = "\<lambda>r :: timespec \<times> app_state. (pubCounterData (snd r), repeatedCounterData (snd r))"
  have p0: "pubCounterData ?s0 = 0" by (simp add: userApplicationPubSub_reset_def)
  have r0: "repeatedCounterData ?s0 = replicate REPEATED_NODECOUNTS 10"
    using assms by (simp add: userApplicationPubSub_reset_def set_repeatedCounterData_eq)
  have pN: "pubCounterData (snd (foldl (userApplicationPubSub_body csv q) (d, ?s0) es)) =
              of_nat (length es)" for q d es
    using iterate_pubCounterData [of csv q "(d, ?s0)" es] p0 by simp
  have rN: "repeatedCounterData (snd (foldl (userApplicationPubSub_body csv q) (d, ?s0) es)) =
              replicate REPEATED_NODECOUNTS (10 + of_nat (length es))" for q d es
    using iterate_repeatedCounterData [of "(d, ?s0)" csv q es] r0 by simp
  have u: "unat (pubCounterData (snd (foldl (userApplicationPubSub_body csv p) (deadline, ?s0) envs)))
             = length envs \<and>
           map unat (repeatedCounterData
               (snd (foldl (userApplicationPubSub_body csv p) (deadline, ?s0) envs))) =
             replicate REPEATED_NODECOUNTS (10 + length envs)"
    if "length envs + 10 < 2 ^ 64"
  proof -
    have "unat (0 + of_nat (length envs) :: 64 word) = unat (0 :: 64 word) + length envs"
      using that by (intro unat_add_of_nat_64) simp
    moreover have "unat (10 + of_nat (length envs) :: 64 word) = unat (10 :: 64 word) + length envs"
      using that by (intro unat_add_of_nat_64) simp
    ultimately show ?thesis by (simp add: pN rN)
  qed
  have lp: "\<exists>n\<le>length envs.
              ?f (userApplicationPubSub_loop csv q envs (d, ?s0)) =
                (of_nat n, replicate REPEATED_NODECOUNTS (10 + of_nat n))" for q d
  proof -
    obtain n where n: "n \<le> length envs"
      "userApplicationPubSub_loop csv q envs (d, ?s0) =
         foldl (userApplicationPubSub_body csv q) (d, ?s0) (take n envs)"
      using loop_prefix by blast
    have "?f (userApplicationPubSub_loop csv q envs (d, ?s0)) =
            (of_nat n, replicate REPEATED_NODECOUNTS (10 + of_nat n))"
      unfolding n(2) using n(1) by (simp add: pN rN)
    with n(1) show ?thesis by blast
  qed
  have t: "\<exists>n\<le>length envs.
               pubCounterData (snd r) = of_nat n \<and>
               repeatedCounterData (snd r) = replicate REPEATED_NODECOUNTS (10 + of_nat n)"
    if "userApplicationPubSub csv c now envs s = Some r" for r
  proof -
    from that obtain d q where r: "r = userApplicationPubSub_loop csv q envs (d, ?s0)"
      by (auto simp: userApplicationPubSub_def split: option.splits)
    show ?thesis using lp [of q d] unfolding r by simp
  qed
  have qu: "userApplicationPubSub csv (1 / 4) now envs s =
           Some (userApplicationPubSub_loop csv 250000 envs
                   (now\<lparr>tv_sec := tv_sec now + 5, tv_nsec := 75000\<rparr>, ?s0))"
    by (rule userApplicationPubSub_quarter)
  have g1: "\<exists>n\<le>length envs.
               map_option ?f (userApplicationPubSub csv c now envs s) =
               Some (of_nat n, replicate REPEATED_NODECOUNTS (10 + of_nat n))"
    if cr: "0 \<le> c \<and> c \<le> 1000000000"
  proof -
    obtain d q where dq: "userApplicationPubSub csv c now envs s =
           Some (userApplicationPubSub_loop csv q envs (d, ?s0))"
      using userApplicationPubSub_defined [of c csv now envs s] cr by blast
    show ?thesis using lp [of q d] unfolding dq by simp
  qed
  have g2: "map_option ?f (userApplicationPubSub csv c now envs s) =
               Some (of_nat (length envs),
                     replicate REPEATED_NODECOUNTS (10 + of_nat (length envs)))"
    if cr: "0 \<le> c \<and> c \<le> 1000000000" and ru: "running s \<and>
             (csv \<longrightarrow> measurementsPublisher s + length envs \<le> MAX_MEASUREMENTS \<and>
                     measurementsSubscriber s + length envs \<le> MAX_MEASUREMENTS)"
  proof -
    obtain d q where dq: "userApplicationPubSub csv c now envs s =
           Some (userApplicationPubSub_loop csv q envs (d, ?s0))"
      using userApplicationPubSub_defined [of c csv now envs s] cr by blast
    have "userApplicationPubSub_loop csv q envs (d, ?s0) =
            foldl (userApplicationPubSub_body csv q) (d, ?s0) envs"
      using ru by (intro loop_all_rounds) (simp_all add: reset_keeps)
    then show ?thesis unfolding dq by (simp add: pN rN)
  qed
  show ?thesis using p0 r0 pN rN u t qu g1 g2 by blast
qed

theorem userApplicationPubSub_reset_counters_witness:
  "length (repeatedCounterData sample_state) = REPEATED_NODECOUNTS \<and>
   (0 :: rat) \<le> 1 / 4 \<and> (1 / 4 :: rat) \<le> 1000000000 \<and>
   running sample_state \<and>
   measurementsPublisher sample_state + length [sample_env_received, sample_env, sample_env_received]
     \<le> MAX_MEASUREMENTS \<and>
   measurementsSubscriber sample_state + length [sample_env_received, sample_env, sample_env_received]
     \<le> MAX_MEASUREMENTS \<and>
   pubCounterData sample_state = 41 \<and>
   repeatedCounterData sample_state = [7, 9] \<and>
   map_option (\<lambda>r. (pubCounterData (snd r), repeatedCounterData (snd r)))
     (userApplicationPubSub True (1 / 4) \<lparr>tv_sec = 1700000000, tv_nsec = 123456789\<rparr>
        [sample_env_received, sample_env, sample_env_received] sample_state) =
     Some (3, [13, 13])"
proof -
  have h: "length (repeatedCounterData sample_state) = REPEATED_NODECOUNTS"
    by (simp add: sample_state_def REPEATED_NODECOUNTS_def)
  have g: "running sample_state" "measurementsPublisher sample_state = 0"
    "measurementsSubscriber sample_state = 0"
    "pubCounterData sample_state = 41" "repeatedCounterData sample_state = [7, 9]"
    by (simp_all add: sample_state_def initial_state_def)
  note th = userApplicationPubSub_reset_counters
         [OF h, where c = "1 / 4" and csv = True
            and now = "\<lparr>tv_sec = 1700000000, tv_nsec = 123456789\<rparr>"
            and envs = "[sample_env_received, sample_env, sample_env_received]"]
  note range = th [THEN conjunct2, THEN conjunct2, THEN conjunct2, THEN conjunct2,
                   THEN conjunct2, THEN conjunct2, THEN conjunct2]
  from range h g three_le_MAX_MEASUREMENTS
  show ?thesis
    by (simp add: replicate_REPEATED_NODECOUNTS)
qed

section \<open>Properties of the main function\<close>

lemma process_options_interface:
  "process_options opts cfg = Some cfg' \<Longrightarrow> \<forall>a. Opt_interface a \<notin> set opts \<Longrightarrow>
   interface cfg' = interface cfg"
  by (induction opts cfg rule: process_options.induct) auto

lemma tenth: "round_double (1 / 10) = 3602879701896397 / 36028797018963968"
  by code_simp

text \<open>
  C7. Without an interface option \<^verbatim>\<open>main\<close> returns \<open>-1\<close> after at most an error
  message and the usage text; with a cycle time below 0.125 it returns \<open>-1\<close> after
  exactly these two. In both cases nothing is set up and no thread is created. With
  an interface, a cycle time of at least 0.125, a successful allocation, successful
  scheduler calls and a server run that returns 0, it returns 0.
\<close>

theorem main_exit_status:
  "((\<forall>a. Opt_interface a \<notin> set opts) \<longrightarrow>
      fst (main opts env) = - 1 \<and> fst (main opts env) \<noteq> 0 \<and>
      set (snd (main opts env)) \<subseteq> {Ev_LogError, Ev_Usage}) \<and>
   (process_options opts default_settings = Some cfg \<and> cycleTimeInMsec cfg < 1 / 8 \<longrightarrow>
      fst (main opts env) = - 1 \<and> fst (main opts env) \<noteq> 0 \<and>
      snd (main opts env) = [Ev_LogError, Ev_Usage]) \<and>
   (process_options opts default_settings = Some cfg \<and> interface cfg \<noteq> None \<and>
    1 / 8 \<le> cycleTimeInMsec cfg \<and> malloc_ok env \<and> setschedparam_ok env \<and>
    setaffinity_ok env \<and> server_run_status env = 0 \<longrightarrow>
      fst (main opts env) = 0)"
proof (intro conjI impI)
  assume a: "\<forall>a. Opt_interface a \<notin> set opts"
  have i: "interface cfg' = None" if "process_options opts default_settings = Some cfg'" for cfg'
    using process_options_interface [OF that a] by (simp add: default_settings_def)
  show "fst (main opts env) = - 1"
    using i by (auto simp: main_def split: option.splits)
  then show "fst (main opts env) \<noteq> 0" by simp
  show "set (snd (main opts env)) \<subseteq> {Ev_LogError, Ev_Usage}"
    using i by (auto simp: main_def split: option.splits)
next
  assume a: "process_options opts default_settings = Some cfg \<and> cycleTimeInMsec cfg < 1 / 8"
  then show "fst (main opts env) = - 1" by (simp add: main_def)
  then show "fst (main opts env) \<noteq> 0" by simp
  from a show "snd (main opts env) = [Ev_LogError, Ev_Usage]" by (simp add: main_def)
next
  assume "process_options opts default_settings = Some cfg \<and> interface cfg \<noteq> None \<and>
    1 / 8 \<le> cycleTimeInMsec cfg \<and> malloc_ok env \<and> setschedparam_ok env \<and>
    setaffinity_ok env \<and> server_run_status env = 0"
  then show "fst (main opts env) = 0"
    by (auto simp: main_def threadCreation_def)
qed

theorem main_exit_status_witness:
  "(\<forall>a. Opt_interface a \<notin> set [Opt_enableCsvLog]) \<and>
   main [Opt_enableCsvLog]
     sample_os_env =
     (- 1, [Ev_LogError, Ev_Usage]) \<and>
   process_options [Opt_interface ''enp2s0'', Opt_cycleTimeInMsec (round_double (1 / 10))]
     default_settings =
     Some (default_settings\<lparr>interface := Some ''enp2s0'',
                            cycleTimeInMsec := 3602879701896397 / 36028797018963968\<rparr>) \<and>
   (3602879701896397 / 36028797018963968 :: rat) < 1 / 8 \<and>
   main [Opt_interface ''enp2s0'', Opt_cycleTimeInMsec (round_double (1 / 10))]
     sample_os_env =
     (- 1, [Ev_LogError, Ev_Usage]) \<and>
   fst (main [Opt_interface ''enp2s0'']
     sample_os_env) = 0"
  using main_exit_status
          [where opts = "[Opt_enableCsvLog]" and env = 
              sample_os_env]
        main_exit_status
          [where opts = "[Opt_interface ''enp2s0'', Opt_cycleTimeInMsec (round_double (1 / 10))]"
             and cfg = "default_settings\<lparr>interface := Some ''enp2s0'',
                            cycleTimeInMsec := 3602879701896397 / 36028797018963968\<rparr>"
             and env =
              sample_os_env]
        main_exit_status
          [where opts = "[Opt_interface ''enp2s0'']"
             and cfg = "default_settings\<lparr>interface := Some ''enp2s0''\<rparr>"
             and env =
              sample_os_env]
  by (simp add: tenth main_def default_settings_def threadCreation_def sample_os_env_def)

end
